theory Spec2Isabelle
  imports Main "HOL-Library.Word"
begin

unbundle bit_operations_syntax

section \<open>JavaScript values\<close>

text \<open>
  A JavaScript string is a sequence of UTF-16 code units; a Buffer and the content of a
  file are sequences of bytes. \<open>js\<close> embeds an ASCII literal.
\<close>

type_synonym jsstring = "16 word list"
type_synonym bytes = "8 word list"

definition js :: "string \<Rightarrow> jsstring" where
  "js s = map of_char s"

text \<open>
  The values that reach the server: the parsed JSON body of a request, a header, an
  environment variable. Numbers are the integer-valued ones; no function of the server
  computes with a number it received.
\<close>

datatype jsval =
    JUndefined
  | JNull
  | JBool bool
  | JNum int
  | JStr jsstring
  | JArr "jsval list"
  | JObj "(jsstring \<times> jsval) list"

datatype js_error = TypeError | RangeError | SyntaxError | ENOENT | EACCES | EEXIST | EISDIR

fun is_string :: "jsval \<Rightarrow> bool" where
  "is_string (JStr s) = True"
| "is_string v = False"

text \<open>\<open>!v\<close> is \<open>\<not> truthy v\<close>.\<close>

fun truthy :: "jsval \<Rightarrow> bool" where
  "truthy JUndefined = False"
| "truthy JNull = False"
| "truthy (JBool b) = b"
| "truthy (JNum n) = (n \<noteq> 0)"
| "truthy (JStr s) = (s \<noteq> [])"
| "truthy (JArr xs) = True"
| "truthy (JObj kvs) = True"

text \<open>An environment variable or a header: a string, or undefined when it is not set.\<close>

fun opt_val :: "jsstring option \<Rightarrow> jsval" where
  "opt_val None = JUndefined"
| "opt_val (Some s) = JStr s"

text \<open>
  \<open>v[k]\<close> for the property names the handlers read (\<open>pin\<close>, \<open>name\<close>, \<open>content\<close>):
  reading a property of \<open>undefined\<close> or \<open>null\<close> throws, an object gives its binding,
  every other value gives \<open>undefined\<close>.
\<close>

fun get_prop :: "jsval \<Rightarrow> jsstring \<Rightarrow> js_error + jsval" where
  "get_prop JUndefined k = Inl TypeError"
| "get_prop JNull k = Inl TypeError"
| "get_prop (JObj kvs) k = Inr (case map_of kvs k of None \<Rightarrow> JUndefined | Some v \<Rightarrow> v)"
| "get_prop v k = Inr JUndefined"

section \<open>Rate limiter\<close>

record attempts =
  count :: nat
  lastAttempt :: int

type_synonym loginAttempts = "jsstring \<rightharpoonup> attempts"

definition MAX_ATTEMPTS :: nat where
  "MAX_ATTEMPTS = 5"

definition LOCKOUT_TIME :: int where
  "LOCKOUT_TIME = 15 * 60 * 1000"

definition resetAttempts :: "jsstring \<Rightarrow> loginAttempts \<Rightarrow> loginAttempts" where
  "resetAttempts ip m = m(ip := None)"

text \<open>
  \<open>isLockedOut\<close> reads the clock (\<open>now\<close>, milliseconds) and may delete the record: it
  returns its answer and the map it leaves.
\<close>

definition isLockedOut :: "int \<Rightarrow> jsstring \<Rightarrow> loginAttempts \<Rightarrow> bool \<times> loginAttempts" where
  "isLockedOut now ip m =
     (case m ip of
        None \<Rightarrow> (False, m)
      | Some a \<Rightarrow>
          if MAX_ATTEMPTS \<le> count a then
            (let timeElapsed = now - lastAttempt a
             in if timeElapsed < LOCKOUT_TIME then (True, m)
                else (False, resetAttempts ip m))
          else (False, m))"

definition recordAttempt :: "int \<Rightarrow> jsstring \<Rightarrow> loginAttempts \<Rightarrow> loginAttempts" where
  "recordAttempt now ip m =
     (let a = (case m ip of None \<Rightarrow> \<lparr>count = 0, lastAttempt = 0\<rparr> | Some a \<Rightarrow> a)
      in m(ip \<mapsto> a\<lparr>count := count a + 1, lastAttempt := now\<rparr>))"

text \<open>The body of the periodic cleanup, run at clock value \<open>now\<close>.\<close>

definition cleanup :: "int \<Rightarrow> loginAttempts \<Rightarrow> loginAttempts" where
  "cleanup now m =
     (\<lambda>ip. case m ip of
             None \<Rightarrow> None
           | Some a \<Rightarrow> if LOCKOUT_TIME \<le> now - lastAttempt a then None else Some a)"

section \<open>Credential validator\<close>

text \<open>\<open>/^\d{4,10}$/\<close>: four to ten code units, each an ASCII digit.\<close>

definition is_digit :: "16 word \<Rightarrow> bool" where
  "is_digit c = (0x30 \<le> c \<and> c \<le> 0x39)"

fun isValidPin :: "jsval \<Rightarrow> bool" where
  "isValidPin (JStr s) = (4 \<le> length s \<and> length s \<le> 10 \<and> list_all is_digit s)"
| "isValidPin v = False"

subsection \<open>Buffer.from: the UTF-8 bytes of a string\<close>

definition is_high :: "16 word \<Rightarrow> bool" where
  "is_high u = (0xD800 \<le> u \<and> u \<le> 0xDBFF)"

definition is_low :: "16 word \<Rightarrow> bool" where
  "is_low u = (0xDC00 \<le> u \<and> u \<le> 0xDFFF)"

definition is_surrogate :: "16 word \<Rightarrow> bool" where
  "is_surrogate u = (0xD800 \<le> u \<and> u \<le> 0xDFFF)"

text \<open>The code point of a surrogate pair.\<close>

definition pair_cp :: "16 word \<Rightarrow> 16 word \<Rightarrow> nat" where
  "pair_cp hi lo = 0x10000 + (unat hi - 0xD800) * 0x400 + (unat lo - 0xDC00)"

definition byte :: "nat \<Rightarrow> 8 word" where
  "byte n = of_nat n"

definition code_unit :: "nat \<Rightarrow> 16 word" where
  "code_unit n = of_nat n"

definition enc_cp :: "nat \<Rightarrow> bytes" where
  "enc_cp c =
     (if c < 0x80 then [byte c]
      else if c < 0x800 then [byte (0xC0 + c div 0x40), byte (0x80 + c mod 0x40)]
      else if c < 0x10000 then
        [byte (0xE0 + c div 0x1000), byte (0x80 + c div 0x40 mod 0x40),
         byte (0x80 + c mod 0x40)]
      else
        [byte (0xF0 + c div 0x40000), byte (0x80 + c div 0x1000 mod 0x40),
         byte (0x80 + c div 0x40 mod 0x40), byte (0x80 + c mod 0x40)])"

text \<open>An unpaired surrogate is written as U+FFFD.\<close>

definition replacement :: bytes where
  "replacement = [0xEF, 0xBF, 0xBD]"

fun utf8_encode :: "jsstring \<Rightarrow> bytes" where
  "utf8_encode [] = []"
| "utf8_encode [u] = (if is_surrogate u then replacement else enc_cp (unat u))"
| "utf8_encode (u # v # rest) =
     (if is_high u \<and> is_low v then enc_cp (pair_cp u v) @ utf8_encode rest
      else if is_surrogate u then replacement @ utf8_encode (v # rest)
      else enc_cp (unat u) @ utf8_encode (v # rest))"

subsection \<open>crypto.timingSafeEqual\<close>

text \<open>
  The comparison accumulates the differences of all the bytes and looks at the
  accumulator once, at the end; buffers of different lengths are refused with a
  RangeError.
\<close>

fun CRYPTO_memcmp :: "bytes \<Rightarrow> bytes \<Rightarrow> 8 word \<Rightarrow> 8 word" where
  "CRYPTO_memcmp (a # as) (b # bs) x = CRYPTO_memcmp as bs (x OR (a XOR b))"
| "CRYPTO_memcmp as bs x = x"

definition timingSafeEqual :: "bytes \<Rightarrow> bytes \<Rightarrow> js_error + bool" where
  "timingSafeEqual a b =
     (if length a \<noteq> length b then Inl RangeError
      else Inr (CRYPTO_memcmp a b 0 = 0))"

subsection \<open>secureCompare\<close>

text \<open>
  The result is \<open>Inr\<close> of the value returned, or \<open>Inl\<close> of an exception that leaves
  the function.
\<close>

definition secureCompare :: "jsval \<Rightarrow> jsval \<Rightarrow> js_error + bool" where
  "secureCompare a b =
     (case (a, b) of
        (JStr x, JStr y) \<Rightarrow>
          (case timingSafeEqual (utf8_encode x) (utf8_encode y) of
             Inl err \<Rightarrow> Inr False
           | Inr r \<Rightarrow> Inr r)
      | _ \<Rightarrow> Inr False)"

section \<open>Files\<close>

subsection \<open>Reading a file as utf8\<close>

definition is_cont :: "8 word \<Rightarrow> bool" where
  "is_cont b = (0x80 \<le> b \<and> b \<le> 0xBF)"

text \<open>The UTF-16 code units of a code point.\<close>

definition cp_units :: "nat \<Rightarrow> jsstring" where
  "cp_units c =
     (if c < 0x10000 then [code_unit c]
      else [code_unit (0xD800 + (c - 0x10000) div 0x400),
            code_unit (0xDC00 + (c - 0x10000) mod 0x400)])"

text \<open>The range of the byte that may follow a lead byte of a long sequence.\<close>

definition lower2 :: "8 word \<Rightarrow> 8 word" where
  "lower2 b = (if b = 0xE0 then 0xA0 else if b = 0xF0 then 0x90 else 0x80)"

definition upper2 :: "8 word \<Rightarrow> 8 word" where
  "upper2 b = (if b = 0xED then 0x9F else if b = 0xF4 then 0x8F else 0xBF)"

text \<open>
  Decoding never fails: a byte sequence that is not UTF-8 gives U+FFFD for each
  ill-formed part, and decoding resumes at the byte that broke the sequence.
\<close>

fun utf8_decode :: "bytes \<Rightarrow> jsstring" where
  "utf8_decode [] = []"
| "utf8_decode (b # bs) =
     (if b < 0x80 then code_unit (unat b) # utf8_decode bs
      else if 0xC2 \<le> b \<and> b \<le> 0xDF then
        (case bs of
           [] \<Rightarrow> [0xFFFD]
         | b1 # r1 \<Rightarrow>
             if is_cont b1 then
               cp_units ((unat b - 0xC0) * 0x40 + (unat b1 - 0x80)) @ utf8_decode r1
             else 0xFFFD # utf8_decode bs)
      else if 0xE0 \<le> b \<and> b \<le> 0xEF then
        (case bs of
           [] \<Rightarrow> [0xFFFD]
         | b1 # r1 \<Rightarrow>
             if lower2 b \<le> b1 \<and> b1 \<le> upper2 b then
               (case r1 of
                  [] \<Rightarrow> [0xFFFD]
                | b2 # r2 \<Rightarrow>
                    if is_cont b2 then
                      cp_units ((unat b - 0xE0) * 0x1000 + (unat b1 - 0x80) * 0x40
                                + (unat b2 - 0x80)) @ utf8_decode r2
                    else 0xFFFD # utf8_decode r1)
             else 0xFFFD # utf8_decode bs)
      else if 0xF0 \<le> b \<and> b \<le> 0xF4 then
        (case bs of
           [] \<Rightarrow> [0xFFFD]
         | b1 # r1 \<Rightarrow>
             if lower2 b \<le> b1 \<and> b1 \<le> upper2 b then
               (case r1 of
                  [] \<Rightarrow> [0xFFFD]
                | b2 # r2 \<Rightarrow>
                    if is_cont b2 then
                      (case r2 of
                         [] \<Rightarrow> [0xFFFD]
                       | b3 # r3 \<Rightarrow>
                           if is_cont b3 then
                             cp_units ((unat b - 0xF0) * 0x40000 + (unat b1 - 0x80) * 0x1000
                                       + (unat b2 - 0x80) * 0x40 + (unat b3 - 0x80))
                             @ utf8_decode r3
                           else 0xFFFD # utf8_decode r2)
                    else 0xFFFD # utf8_decode r1)
             else 0xFFFD # utf8_decode bs)
      else 0xFFFD # utf8_decode bs)"

subsection \<open>path.join\<close>

text \<open>The POSIX \<open>path.join\<close>: the non-empty arguments joined by a slash, then normalised.\<close>

definition slash :: "16 word" where
  "slash = 0x2F"

fun split_on :: "'a \<Rightarrow> 'a list \<Rightarrow> 'a list list" where
  "split_on s [] = [[]]"
| "split_on s (c # cs) =
     (if c = s then [] # split_on s cs
      else (case split_on s cs of [] \<Rightarrow> [[c]] | x # xs \<Rightarrow> (c # x) # xs))"

fun join_with :: "'a list \<Rightarrow> 'a list list \<Rightarrow> 'a list" where
  "join_with s [] = []"
| "join_with s [x] = x"
| "join_with s (x # y # ys) = x @ s @ join_with s (y # ys)"

text \<open>
  \<open>normalizeString\<close> on the segments of the path; \<open>res\<close> holds the segments kept so
  far, the last one first.
\<close>

fun normalizeString :: "jsstring list \<Rightarrow> bool \<Rightarrow> jsstring list \<Rightarrow> jsstring list" where
  "normalizeString [] allowAboveRoot res = rev res"
| "normalizeString (s # ss) allowAboveRoot res =
     (if s = [] \<or> s = js ''.'' then normalizeString ss allowAboveRoot res
      else if s = js ''..'' then
        (case res of
           [] \<Rightarrow> normalizeString ss allowAboveRoot (if allowAboveRoot then [s] else [])
         | r # rs \<Rightarrow>
             if r \<noteq> js ''..'' then normalizeString ss allowAboveRoot rs
             else normalizeString ss allowAboveRoot (if allowAboveRoot then s # res else res))
      else normalizeString ss allowAboveRoot (s # res))"

definition path_normalize :: "jsstring \<Rightarrow> jsstring" where
  "path_normalize p =
     (case p of
        [] \<Rightarrow> js ''.''
      | c # cs \<Rightarrow>
          (let isAbsolute = (c = slash);
               trailingSeparator = (last p = slash);
               q = join_with [slash] (normalizeString (split_on slash p) (\<not> isAbsolute) [])
           in if q = [] then
                (if isAbsolute then [slash]
                 else if trailingSeparator then js ''./'' else js ''.'')
              else (if isAbsolute then [slash] else []) @ q
                   @ (if trailingSeparator then [slash] else [])))"

definition path_join :: "jsstring list \<Rightarrow> jsstring" where
  "path_join args =
     (case filter (\<lambda>arg. arg \<noteq> []) args of
        [] \<Rightarrow> js ''.''
      | part # parts \<Rightarrow> path_normalize (join_with [slash] (part # parts)))"

subsection \<open>The data directory\<close>

text \<open>
  An entry of \<open>notepads.json\<close>. A name is whatever value the rename request carried;
  \<open>JUndefined\<close> stands for an entry without a name.
\<close>

record notepad_entry =
  id_np :: jsstring
  name_np :: jsval

text \<open>
  What \<open>notepads.json\<close> holds: nothing (no such file), text that does not parse to an
  object with an array \<open>notepads\<close>, or the entries of that array. The entries are the
  ones the server writes: objects with a string \<open>id\<close>.
\<close>

datatype regfile = NoFile | Garbage | Notepads "notepad_entry list"

text \<open>
  The files: the registry file, the other files by path, the directories that exist
  (the root always does), and the paths on which the operating system refuses to read
  (\<open>rdeny\<close>) or to create, write and remove (\<open>wdeny\<close>). Paths are absolute and
  normalised, as \<open>path.join\<close> on the directory of the server script gives them. Every
  path a note is stored at ends in \<open>.txt\<close>, so none is the path of the registry file.
\<close>

record filesystem =
  registry :: regfile
  contents :: "jsstring \<rightharpoonup> bytes"
  dirs :: "jsstring set"
  rdeny :: "jsstring set"
  wdeny :: "jsstring set"

text \<open>The directory a path lies in: the path up to its last slash.\<close>

definition parent_dir :: "jsstring \<Rightarrow> jsstring" where
  "parent_dir p =
     (case rev (tl (dropWhile (\<lambda>c. c \<noteq> slash) (rev p))) of
        [] \<Rightarrow> [slash]
      | c # cs \<Rightarrow> c # cs)"

text \<open>The directories above a path, the root left out: its prefixes that end before a slash.\<close>

definition ancestors :: "jsstring \<Rightarrow> jsstring list" where
  "ancestors p = map (\<lambda>k. take k p) (filter (\<lambda>k. 0 < k \<and> p ! k = slash) [0..<length p])"

definition dir_exists :: "filesystem \<Rightarrow> jsstring \<Rightarrow> bool" where
  "dir_exists fs d = (d = [slash] \<or> d \<in> dirs fs)"

text \<open>
  \<open>fs.mkdir(d, {recursive: true})\<close>: makes the directory and the missing ones above it;
  a directory that exists already is no error, a file in the way is.
\<close>

definition mkdir_recursive :: "filesystem \<Rightarrow> jsstring \<Rightarrow> js_error + filesystem" where
  "mkdir_recursive fs d =
     (if d \<in> wdeny fs then Inl EACCES
      else if list_ex (\<lambda>a. contents fs a \<noteq> None) (d # ancestors d) then Inl EEXIST
      else Inr (fs\<lparr>dirs := dirs fs \<union> set (d # ancestors d)\<rparr>))"

text \<open>\<open>fs.access(p)\<close>: whether something is there, a file or a directory.\<close>

definition fs_access :: "filesystem \<Rightarrow> jsstring \<Rightarrow> js_error + unit" where
  "fs_access fs p =
     (if dir_exists fs p then Inr ()
      else case contents fs p of None \<Rightarrow> Inl ENOENT | Some b \<Rightarrow> Inr ())"

definition readFile :: "filesystem \<Rightarrow> jsstring \<Rightarrow> js_error + jsstring" where
  "readFile fs p =
     (if p \<in> rdeny fs then Inl EACCES
      else if dir_exists fs p then Inl EISDIR
      else case contents fs p of None \<Rightarrow> Inl ENOENT | Some b \<Rightarrow> Inr (utf8_decode b))"

text \<open>
  \<open>fs.writeFile(p, s)\<close> for a string \<open>s\<close>: the file is made or replaced, in a directory
  that exists.
\<close>

definition writeFile :: "filesystem \<Rightarrow> jsstring \<Rightarrow> jsstring \<Rightarrow> js_error + filesystem" where
  "writeFile fs p s =
     (if p \<in> wdeny fs then Inl EACCES
      else if \<not> dir_exists fs (parent_dir p) then Inl ENOENT
      else if dir_exists fs p then Inl EISDIR
      else Inr (fs\<lparr>contents := (contents fs)(p \<mapsto> utf8_encode s)\<rparr>))"

text \<open>
  \<open>fs.writeFile(p, chunks)\<close> for an array, which it takes as an iterable: the file is
  opened (made or emptied), then the chunks are appended in order. A chunk that is not a
  string ends the writing with a TypeError, what was written before it staying in the
  file; so it is for a number, a boolean or null. Chunks that are themselves arrays or
  objects, some of which \<open>Buffer.from\<close> converts to bytes, are outside the model.
\<close>

fun appendChunks :: "filesystem \<Rightarrow> jsstring \<Rightarrow> jsval list \<Rightarrow> js_error option \<times> filesystem" where
  "appendChunks fs p [] = (None, fs)"
| "appendChunks fs p (JStr s # chunks) =
     appendChunks
       (fs\<lparr>contents := (contents fs)
              (p \<mapsto> (case contents fs p of None \<Rightarrow> [] | Some b \<Rightarrow> b) @ utf8_encode s)\<rparr>)
       p chunks"
| "appendChunks fs p (chunk # chunks) = (Some TypeError, fs)"

definition writeFileChunks :: "filesystem \<Rightarrow> jsstring \<Rightarrow> jsval list \<Rightarrow> js_error option \<times> filesystem" where
  "writeFileChunks fs p chunks =
     (case writeFile fs p [] of
        Inl err \<Rightarrow> (Some err, fs)
      | Inr fs1 \<Rightarrow> appendChunks fs1 p chunks)"

text \<open>
  \<open>fs.writeFile(p, v)\<close> for the value of a JSON body: a string, an array, or a value
  that is refused with a TypeError before the file is touched.
\<close>

definition writeFileValue :: "filesystem \<Rightarrow> jsstring \<Rightarrow> jsval \<Rightarrow> js_error option \<times> filesystem" where
  "writeFileValue fs p v =
     (case v of
        JStr s \<Rightarrow> (case writeFile fs p s of Inl err \<Rightarrow> (Some err, fs) | Inr fs1 \<Rightarrow> (None, fs1))
      | JArr chunks \<Rightarrow> writeFileChunks fs p chunks
      | _ \<Rightarrow> (Some TypeError, fs))"

definition unlink :: "filesystem \<Rightarrow> jsstring \<Rightarrow> js_error + filesystem" where
  "unlink fs p =
     (if p \<in> wdeny fs then Inl EACCES
      else if dir_exists fs p then Inl EISDIR
      else case contents fs p of
             None \<Rightarrow> Inl ENOENT
           | Some b \<Rightarrow> Inr (fs\<lparr>contents := (contents fs)(p := None)\<rparr>))"

section \<open>Configuration\<close>

text \<open>
  The environment variables the server reads, and \<open>__dirname\<close>: the directory of the
  server script, an absolute path.
\<close>

record env =
  DUMBPAD_PIN :: "jsstring option"
  SITE_TITLE :: "jsstring option"
  BASE_URL_var :: "jsstring option"
  PORT_var :: "jsstring option"
  dirname :: jsstring

text \<open>\<open>v || d\<close> for an environment variable \<open>v\<close>.\<close>

fun or_default :: "jsstring option \<Rightarrow> jsstring \<Rightarrow> jsstring" where
  "or_default None d = d"
| "or_default (Some s) d = (if s = [] then d else s)"

definition PIN :: "env \<Rightarrow> jsval" where
  "PIN e = opt_val (DUMBPAD_PIN e)"

definition PORT :: "env \<Rightarrow> jsstring" where
  "PORT e = or_default (PORT_var e) (js ''3000'')"

definition BASE_URL :: "env \<Rightarrow> jsstring" where
  "BASE_URL e = or_default (BASE_URL_var e) (js ''http://localhost:'' @ PORT e)"

definition DATA_DIR :: "env \<Rightarrow> jsstring" where
  "DATA_DIR e = path_join [dirname e, js ''data'']"

definition NOTEPADS_FILE :: "env \<Rightarrow> jsstring" where
  "NOTEPADS_FILE e = path_join [DATA_DIR e, js ''notepads.json'']"

definition notePath :: "env \<Rightarrow> jsstring \<Rightarrow> jsstring" where
  "notePath e i = path_join [DATA_DIR e, i @ js ''.txt'']"

section \<open>Requests and responses\<close>

datatype http_method = GET | HEAD | POST | PUT | DELETE | OTHER

text \<open>
  A request as the routes see it: the path by its segments (\<open>/api/notes/7\<close> is
  \<open>[api, notes, 7]\<close>, the last one being \<open>req.params.id\<close>, decoded; a path that
  ends in a slash has an empty last segment), the \<open>x-pin\<close> header, the parsed JSON body
  and the address of the caller. The middleware mounted before the routes (CORS, the
  JSON body parser, static files) is not part of the model.
\<close>

record request =
  meth :: http_method
  pathname :: "jsstring list"
  x_pin :: "jsstring option"
  body :: jsval
  ip :: jsstring

record response =
  status :: nat
  payload :: jsval

definition json :: "jsval \<Rightarrow> response" where
  "json v = \<lparr>status = 200, payload = v\<rparr>"

definition status_json :: "nat \<Rightarrow> jsval \<Rightarrow> response" where
  "status_json c v = \<lparr>status = c, payload = v\<rparr>"

text \<open>What the framework answers when a handler throws: status 500, no JSON.\<close>

definition uncaught :: response where
  "uncaught = \<lparr>status = 500, payload = JUndefined\<rparr>"

definition error_body :: "string \<Rightarrow> jsval" where
  "error_body msg = JObj [(js ''error'', JStr (js msg))]"

definition failure_body :: "string \<Rightarrow> jsval" where
  "failure_body msg = JObj [(js ''success'', JBool False), (js ''error'', JStr (js msg))]"

definition success_body :: jsval where
  "success_body = JObj [(js ''success'', JBool True)]"

record state =
  loginAttempts :: "jsstring \<rightharpoonup> attempts"
  files :: filesystem

section \<open>Access gate\<close>

definition verify_pin :: "env \<Rightarrow> request \<Rightarrow> response" where
  "verify_pin e req =
     (case get_prop (body req) (js ''pin'') of
        Inl err \<Rightarrow> uncaught
      | Inr pin \<Rightarrow>
          if \<not> truthy (PIN e) then json success_body
          else if \<not> isValidPin pin then status_json 400 (failure_body ''Invalid PIN format'')
          else if \<not> truthy pin then status_json 401 (failure_body ''Invalid PIN'')
          else (case secureCompare pin (PIN e) of
                  Inl err \<Rightarrow> uncaught
                | Inr ok \<Rightarrow>
                    if ok then json success_body
                    else status_json 401 (failure_body ''Invalid PIN'')))"

fun js_length :: "jsval \<Rightarrow> jsval" where
  "js_length (JStr s) = JNum (int (length s))"
| "js_length v = JUndefined"

definition pin_required :: "env \<Rightarrow> int \<Rightarrow> state \<Rightarrow> request \<Rightarrow> response \<times> state" where
  "pin_required e now st req =
     (let (locked, m) = isLockedOut now (ip req) (loginAttempts st)
      in (json (JObj [(js ''required'', JBool (truthy (PIN e) \<and> isValidPin (PIN e))),
                      (js ''length'', if truthy (PIN e) then js_length (PIN e) else JNum 0),
                      (js ''locked'', JBool locked)]),
          st\<lparr>loginAttempts := m\<rparr>))"

definition config :: "env \<Rightarrow> response" where
  "config e =
     json (JObj [(js ''siteTitle'', JStr (or_default (SITE_TITLE e) (js ''DumbPad''))),
                 (js ''baseUrl'', JStr (BASE_URL e))])"

text \<open>\<open>requirePin\<close> answers the request itself (\<open>Some\<close>) or calls \<open>next()\<close> (\<open>None\<close>).\<close>

definition requirePin :: "env \<Rightarrow> request \<Rightarrow> response option" where
  "requirePin e req =
     (if \<not> truthy (PIN e) then None
      else
        (let providedPin = opt_val (x_pin req)
         in if \<not> isValidPin providedPin then
              Some (status_json 400 (error_body ''Invalid PIN format''))
            else if \<not> truthy providedPin then
              Some (status_json 401 (error_body ''Unauthorized''))
            else (case secureCompare providedPin (PIN e) of
                    Inl err \<Rightarrow> Some uncaught
                  | Inr ok \<Rightarrow>
                      if \<not> ok then Some (status_json 401 (error_body ''Unauthorized''))
                      else None)))"

text \<open>
  The router matches a path against a route without regard to the case of ASCII
  letters, and lets one slash follow the route.
\<close>

definition lower_unit :: "16 word \<Rightarrow> 16 word" where
  "lower_unit c = (if 0x41 \<le> c \<and> c \<le> 0x5A then c + 0x20 else c)"

definition segment_is :: "jsstring \<Rightarrow> string \<Rightarrow> bool" where
  "segment_is seg name = (map lower_unit seg = js name)"

definition route_segments :: "jsstring list \<Rightarrow> jsstring list" where
  "route_segments segs = (case rev segs of [] # front \<Rightarrow> rev front | _ \<Rightarrow> segs)"

definition is_route :: "jsstring list \<Rightarrow> string list \<Rightarrow> bool" where
  "is_route segs names = list_all2 segment_is (route_segments segs) names"

text \<open>
  The middleware mounted on \<open>/api\<close>: \<open>rest\<close> is the path below the mount point, which
  the middleware compares as it is written.
\<close>

definition api_gate :: "env \<Rightarrow> request \<Rightarrow> response option" where
  "api_gate e req =
     (case pathname req of
        [] \<Rightarrow> None
      | seg # rest \<Rightarrow>
          if \<not> segment_is seg ''api'' then None
          else if rest = [js ''verify-pin''] \<or> rest = [js ''pin-required''] then None
          else requirePin e req)"

section \<open>Notepad registry\<close>

text \<open>\<open>Number.prototype.toString\<close> on an integer: its decimal digits.\<close>

definition digit :: "nat \<Rightarrow> 16 word" where
  "digit d = of_nat (48 + d)"

fun nat_toString :: "nat \<Rightarrow> jsstring" where
  "nat_toString n =
     (if n < 10 then [digit n] else nat_toString (n div 10) @ [digit (n mod 10)])"

declare nat_toString.simps [simp del]

definition int_toString :: "int \<Rightarrow> jsstring" where
  "int_toString i = (if i < 0 then js ''-'' @ nat_toString (nat (- i)) else nat_toString (nat i))"

definition default_registry :: "notepad_entry list" where
  "default_registry = [\<lparr>id_np = js ''default'', name_np = JStr (js ''Default Notepad'')\<rparr>]"

text \<open>\<open>JSON.parse(await fs.readFile(NOTEPADS_FILE, 'utf8'))\<close>, used as \<open>data.notepads\<close>.\<close>

definition loadNotepads :: "env \<Rightarrow> filesystem \<Rightarrow> js_error + notepad_entry list" where
  "loadNotepads e fs =
     (if NOTEPADS_FILE e \<in> rdeny fs then Inl EACCES
      else case registry fs of
             NoFile \<Rightarrow> Inl ENOENT
           | Garbage \<Rightarrow> Inl SyntaxError
           | Notepads ns \<Rightarrow> Inr ns)"

text \<open>\<open>fs.writeFile(NOTEPADS_FILE, JSON.stringify(data))\<close>.\<close>

definition saveNotepads :: "env \<Rightarrow> filesystem \<Rightarrow> notepad_entry list \<Rightarrow> js_error + filesystem" where
  "saveNotepads e fs ns =
     (if NOTEPADS_FILE e \<in> wdeny fs then Inl EACCES
      else if \<not> dir_exists fs (DATA_DIR e) then Inl ENOENT
      else Inr (fs\<lparr>registry := Notepads ns\<rparr>))"

text \<open>
  \<open>ensureDataDir\<close> returns the exception it throws, if any, and the files as it leaves
  them: what it wrote before failing stays written.
\<close>

definition ensureDataDir :: "env \<Rightarrow> filesystem \<Rightarrow> js_error option \<times> filesystem" where
  "ensureDataDir e fs =
     (case mkdir_recursive fs (DATA_DIR e) of
        Inl err \<Rightarrow> (Some err, fs)
      | Inr fs0 \<Rightarrow>
          (case (if registry fs0 = NoFile then saveNotepads e fs0 default_registry
                 else if NOTEPADS_FILE e \<in> rdeny fs0 then saveNotepads e fs0 default_registry
                 else if registry fs0 = Garbage then saveNotepads e fs0 default_registry
                 else Inr fs0) of
             Inl err \<Rightarrow> (Some err, fs0)
           | Inr fs1 \<Rightarrow>
               (let defaultNotePath = path_join [DATA_DIR e, js ''default.txt'']
                in case fs_access fs1 defaultNotePath of
                     Inr ok \<Rightarrow> (None, fs1)
                   | Inl err \<Rightarrow>
                       (case writeFile fs1 defaultNotePath [] of
                          Inl err2 \<Rightarrow> (Some err2, fs1)
                        | Inr fs2 \<Rightarrow> (None, fs2)))))"

definition notepad_json :: "notepad_entry \<Rightarrow> jsval" where
  "notepad_json n =
     JObj ((js ''id'', JStr (id_np n))
           # (if name_np n = JUndefined then [] else [(js ''name'', name_np n)]))"

fun findIndex :: "('a \<Rightarrow> bool) \<Rightarrow> 'a list \<Rightarrow> nat option" where
  "findIndex P [] = None"
| "findIndex P (x # xs) =
     (if P x then Some 0 else (case findIndex P xs of None \<Rightarrow> None | Some i \<Rightarrow> Some (Suc i)))"

text \<open>\<open>GET /api/notepads\<close>.\<close>

definition list_notepads :: "env \<Rightarrow> filesystem \<Rightarrow> response \<times> filesystem" where
  "list_notepads e fs =
     (case ensureDataDir e fs of
        (Some err, fs1) \<Rightarrow> (status_json 500 (error_body ''Error reading notepads list''), fs1)
      | (None, fs1) \<Rightarrow>
          (case loadNotepads e fs1 of
             Inl err \<Rightarrow> (status_json 500 (error_body ''Error reading notepads list''), fs1)
           | Inr ns \<Rightarrow> (json (JObj [(js ''notepads'', JArr (map notepad_json ns))]), fs1)))"

text \<open>\<open>POST /api/notepads\<close>; \<open>now\<close> is the value of \<open>Date.now()\<close>.\<close>

definition create :: "env \<Rightarrow> int \<Rightarrow> filesystem \<Rightarrow> response \<times> filesystem" where
  "create e now fs =
     (case loadNotepads e fs of
        Inl err \<Rightarrow> (status_json 500 (error_body ''Error creating new notepad''), fs)
      | Inr ns \<Rightarrow>
          (let i = int_toString now;
               newNotepad = \<lparr>id_np = i,
                             name_np = JStr (js ''Notepad '' @ nat_toString (length ns + 1))\<rparr>
           in case saveNotepads e fs (ns @ [newNotepad]) of
                Inl err \<Rightarrow> (status_json 500 (error_body ''Error creating new notepad''), fs)
              | Inr fs1 \<Rightarrow>
                  (case writeFile fs1 (notePath e i) [] of
                     Inl err \<Rightarrow>
                       (status_json 500 (error_body ''Error creating new notepad''), fs1)
                   | Inr fs2 \<Rightarrow> (json (notepad_json newNotepad), fs2))))"

text \<open>\<open>PUT /api/notepads/:id\<close>.\<close>

definition rename :: "env \<Rightarrow> filesystem \<Rightarrow> jsstring \<Rightarrow> jsval \<Rightarrow> response \<times> filesystem" where
  "rename e fs i reqBody =
     (case get_prop reqBody (js ''name'') of
        Inl err \<Rightarrow> (status_json 500 (error_body ''Error renaming notepad''), fs)
      | Inr name \<Rightarrow>
          (case loadNotepads e fs of
             Inl err \<Rightarrow> (status_json 500 (error_body ''Error renaming notepad''), fs)
           | Inr ns \<Rightarrow>
               (case findIndex (\<lambda>n. id_np n = i) ns of
                  None \<Rightarrow> (status_json 404 (error_body ''Notepad not found''), fs)
                | Some k \<Rightarrow>
                    (let notepad = (ns ! k)\<lparr>name_np := name\<rparr>
                     in case saveNotepads e fs (ns[k := notepad]) of
                          Inl err \<Rightarrow>
                            (status_json 500 (error_body ''Error renaming notepad''), fs)
                        | Inr fs1 \<Rightarrow> (json (notepad_json notepad), fs1)))))"

text \<open>The lines \<open>DELETE /api/notepads/:id\<close> writes to the console.\<close>

datatype log_line =
    Attempting jsstring
  | AttemptedDefault
  | CurrentNotepads "notepad_entry list"
  | NotFoundLine jsstring
  | RemovedNotepad notepad_entry
  | ListSaved
  | DeletedFile jsstring
  | FileError jsstring js_error
  | EndpointError js_error

text \<open>
  \<open>DELETE /api/notepads/:id\<close>: the response, the files it leaves and the console
  lines, in order.
\<close>

definition delete :: "env \<Rightarrow> filesystem \<Rightarrow> jsstring \<Rightarrow> response \<times> filesystem \<times> log_line list" where
  "delete e fs i =
     (if i = js ''default'' then
        (status_json 400 (error_body ''Cannot delete default notepad''), fs,
         [Attempting i, AttemptedDefault])
      else
        (case loadNotepads e fs of
           Inl err \<Rightarrow>
             (status_json 500 (error_body ''Error deleting notepad''), fs,
              [Attempting i, EndpointError err])
         | Inr ns \<Rightarrow>
             (case findIndex (\<lambda>n. id_np n = i) ns of
                None \<Rightarrow>
                  (status_json 404 (error_body ''Notepad not found''), fs,
                   [Attempting i, CurrentNotepads ns, NotFoundLine i])
              | Some notepadIndex \<Rightarrow>
                  (let removedNotepad = ns ! notepadIndex;
                       ns' = take notepadIndex ns @ drop (Suc notepadIndex) ns;
                       log1 = [Attempting i, CurrentNotepads ns, RemovedNotepad removedNotepad]
                   in case saveNotepads e fs ns' of
                        Inl err \<Rightarrow>
                          (status_json 500 (error_body ''Error deleting notepad''), fs,
                           log1 @ [EndpointError err])
                      | Inr fs1 \<Rightarrow>
                          (let p = notePath e i;
                               answer = json (JObj [(js ''success'', JBool True),
                                 (js ''message'', JStr (js ''Notepad deleted successfully''))])
                           in case fs_access fs1 p of
                                Inl err \<Rightarrow> (answer, fs1, log1 @ [ListSaved, FileError p err])
                              | Inr ok \<Rightarrow>
                                  (case unlink fs1 p of
                                     Inl err \<Rightarrow>
                                       (answer, fs1, log1 @ [ListSaved, FileError p err])
                                   | Inr fs2 \<Rightarrow>
                                       (answer, fs2, log1 @ [ListSaved, DeletedFile p])))))))"

section \<open>Note store\<close>

text \<open>\<open>GET /api/notes/:id\<close>: a file that cannot be read reads as the empty string.\<close>

definition read_note :: "env \<Rightarrow> filesystem \<Rightarrow> jsstring \<Rightarrow> response" where
  "read_note e fs i =
     (let p = notePath e i;
          ns = (case readFile fs p of Inl err \<Rightarrow> [] | Inr s \<Rightarrow> s)
      in json (JObj [(js ''content'', JStr ns)]))"

text \<open>\<open>POST /api/notes/:id\<close>.\<close>

definition write_note :: "env \<Rightarrow> filesystem \<Rightarrow> jsstring \<Rightarrow> jsval \<Rightarrow> response \<times> filesystem" where
  "write_note e fs i reqBody =
     (case ensureDataDir e fs of
        (Some err, fs1) \<Rightarrow> (status_json 500 (error_body ''Error saving notes''), fs1)
      | (None, fs1) \<Rightarrow>
          (case get_prop reqBody (js ''content'') of
             Inl err \<Rightarrow> (status_json 500 (error_body ''Error saving notes''), fs1)
           | Inr c \<Rightarrow>
               (case writeFileValue fs1 (notePath e i) c of
                  (Some err, fs2) \<Rightarrow> (status_json 500 (error_body ''Error saving notes''), fs2)
                | (None, fs2) \<Rightarrow> (json success_body, fs2))))"

section \<open>The application\<close>

definition not_found :: response where
  "not_found = \<lparr>status = 404, payload = JUndefined\<rparr>"

text \<open>A HEAD request is routed as a GET request, and answered without a body.\<close>

definition routed_method :: "request \<Rightarrow> http_method" where
  "routed_method req = (if meth req = HEAD then GET else meth req)"

definition send :: "request \<Rightarrow> response \<Rightarrow> response" where
  "send req r = (if meth req = HEAD then r\<lparr>payload := JUndefined\<rparr> else r)"

text \<open>The routes registered after the gate.\<close>

definition routes :: "env \<Rightarrow> int \<Rightarrow> filesystem \<Rightarrow> request \<Rightarrow> response \<times> filesystem" where
  "routes e now fs req =
     (case route_segments (pathname req) of
        [a, b] \<Rightarrow>
          if segment_is a ''api'' \<and> segment_is b ''notepads'' then
            (if routed_method req = GET then list_notepads e fs
             else if routed_method req = POST then create e now fs
             else (not_found, fs))
          else (not_found, fs)
      | [a, b, i] \<Rightarrow>
          if segment_is a ''api'' \<and> segment_is b ''notepads'' \<and> i \<noteq> [] then
            (if routed_method req = PUT then rename e fs i (body req)
             else if routed_method req = DELETE then
               (case delete e fs i of (r, fs', l) \<Rightarrow> (r, fs'))
             else (not_found, fs))
          else if segment_is a ''api'' \<and> segment_is b ''notes'' \<and> i \<noteq> [] then
            (if routed_method req = GET then (read_note e fs i, fs)
             else if routed_method req = POST then write_note e fs i (body req)
             else (not_found, fs))
          else (not_found, fs)
      | _ \<Rightarrow> (not_found, fs))"

text \<open>
  A request goes through the routes and the middleware in the order they were
  registered; each request runs to its end before the next one starts.
\<close>

definition dispatch :: "env \<Rightarrow> int \<Rightarrow> state \<Rightarrow> request \<Rightarrow> response \<times> state" where
  "dispatch e now st req =
     (if routed_method req = POST \<and> is_route (pathname req) [''api'', ''verify-pin''] then
        (send req (verify_pin e req), st)
      else if routed_method req = GET \<and> is_route (pathname req) [''api'', ''pin-required''] then
        (case pin_required e now st req of (r, st1) \<Rightarrow> (send req r, st1))
      else if routed_method req = GET \<and> is_route (pathname req) [''api'', ''config''] then
        (send req (config e), st)
      else
        (case api_gate e req of
           Some denied \<Rightarrow> (send req denied, st)
         | None \<Rightarrow>
             (case routes e now (files st) req of
                (r, fs) \<Rightarrow> (send req r, st\<lparr>files := fs\<rparr>))))"

section \<open>Concrete inputs\<close>

text \<open>
  A caller, configurations, files and requests for the examples below. The server script
  lies in \<open>/app\<close>; \<open>no_files\<close> is that directory before the first request.
\<close>

definition client :: jsstring where
  "client = js ''203.0.113.7''"

definition env_with_pin :: "jsstring option \<Rightarrow> env" where
  "env_with_pin p =
     \<lparr>DUMBPAD_PIN = p, SITE_TITLE = None, BASE_URL_var = None, PORT_var = None,
      dirname = js ''/app''\<rparr>"

definition no_files :: filesystem where
  "no_files = \<lparr>registry = NoFile, contents = Map.empty, dirs = {js ''/app''},
                rdeny = {}, wdeny = {}\<rparr>"

definition fresh_state :: state where
  "fresh_state = \<lparr>loginAttempts = Map.empty, files = no_files\<rparr>"

definition verify_request :: "string \<Rightarrow> request" where
  "verify_request p =
     \<lparr>meth = POST, pathname = [js ''api'', js ''verify-pin''], x_pin = None,
      body = JObj [(js ''pin'', JStr (js p))], ip = client\<rparr>"

definition get_request :: "string list \<Rightarrow> request" where
  "get_request segs =
     \<lparr>meth = GET, pathname = map js segs, x_pin = None, body = JObj [], ip = client\<rparr>"

definition one_failure :: "jsstring \<rightharpoonup> attempts" where
  "one_failure = Map.empty(client \<mapsto> \<lparr>count = 1, lastAttempt = 0\<rparr>)"

definition five_failures :: "jsstring \<rightharpoonup> attempts" where
  "five_failures = Map.empty(client \<mapsto> \<lparr>count = 5, lastAttempt = 0\<rparr>)"

text \<open>Requests served one after the other, each at its own clock value.\<close>

fun serve :: "env \<Rightarrow> state \<Rightarrow> (int \<times> request) list \<Rightarrow> response list \<times> state" where
  "serve e st [] = ([], st)"
| "serve e st ((now, req) # reqs) =
     (case dispatch e now st req of
        (r, st1) \<Rightarrow> (case serve e st1 reqs of (rs, st2) \<Rightarrow> (r # rs, st2)))"

definition five_bad_verifications :: "(int \<times> request) list" where
  "five_bad_verifications =
     [(1, verify_request ''0000''), (2, verify_request ''0000''), (3, verify_request ''0000''),
      (4, verify_request ''0000''), (5, verify_request ''0000'')]"

definition locked_state :: state where
  "locked_state = \<lparr>loginAttempts = five_failures, files = no_files\<rparr>"

definition one_notepad :: filesystem where
  "one_notepad = \<lparr>registry = Notepads default_registry, contents = Map.empty,
                   dirs = {js ''/app'', js ''/app/data''}, rdeny = {}, wdeny = {}\<rparr>"

subsection \<open>Reading a decimal string back\<close>

text \<open>The inverse of \<open>toString\<close>, used to show that different numbers print differently.\<close>

definition digit_value :: "16 word \<Rightarrow> nat" where
  "digit_value c = unat c - 48"

definition parse_nat :: "jsstring \<Rightarrow> nat" where
  "parse_nat s = foldl (\<lambda>acc c. acc * 10 + digit_value c) 0 s"

definition parse_int :: "jsstring \<Rightarrow> int" where
  "parse_int s =
     (case s of
        [] \<Rightarrow> 0
      | c # cs \<Rightarrow> if c = 0x2D then - int (parse_nat cs) else int (parse_nat s))"

definition second_id :: jsstring where
  "second_id = js ''1700000000000''"

definition stored_note :: jsstring where
  "stored_note = js ''/app/data/1700000000000.txt''"

definition two_entries :: "notepad_entry list" where
  "two_entries = [\<lparr>id_np = js ''default'', name_np = JStr (js ''Default Notepad'')\<rparr>,
                  \<lparr>id_np = js ''1700000000000'', name_np = JStr (js ''Notepad 2'')\<rparr>]"

text \<open>Two notepads with their files; in the second variant the second file cannot be removed.\<close>

definition two_notepads :: filesystem where
  "two_notepads =
     \<lparr>registry = Notepads two_entries,
      contents = Map.empty(js ''/app/data/default.txt'' \<mapsto> [],
                           stored_note \<mapsto> [0x68, 0x69]),
      dirs = {js ''/app'', js ''/app/data''}, rdeny = {}, wdeny = {}\<rparr>"

definition two_notepads_locked :: filesystem where
  "two_notepads_locked = two_notepads\<lparr>wdeny := {stored_note}\<rparr>"

text \<open>The same files, the registry file holding text that is not a registry.\<close>

definition garbled_registry :: filesystem where
  "garbled_registry = two_notepads\<lparr>registry := Garbage\<rparr>"

subsection \<open>Absolute paths\<close>

text \<open>
  A segment of a normalised path is not empty, is neither \<open>.\<close> nor \<open>..\<close> and holds no
  slash; \<open>absolute\<close> is the absolute path with the given segments; \<open>inside d p\<close> says
  that the path \<open>p\<close> lies below the directory \<open>d\<close>.
\<close>

definition segment :: "jsstring \<Rightarrow> bool" where
  "segment s = (s \<noteq> [] \<and> s \<noteq> js ''.'' \<and> s \<noteq> js ''..'' \<and> slash \<notin> set s)"

definition absolute :: "jsstring list \<Rightarrow> jsstring" where
  "absolute segs = slash # join_with [slash] segs"

definition inside :: "jsstring \<Rightarrow> jsstring \<Rightarrow> bool" where
  "inside d p = (take (Suc (length d)) p = d @ [slash])"

subsection \<open>Well-formed text\<close>

text \<open>
  A string is well formed when every surrogate code unit is part of a pair: a high
  surrogate directly followed by a low one.
\<close>

fun well_formed :: "jsstring \<Rightarrow> bool" where
  "well_formed [] = True"
| "well_formed [u] = (\<not> is_surrogate u)"
| "well_formed (u # v # rest) =
     (if is_high u then is_low v \<and> well_formed rest
      else \<not> is_surrogate u \<and> well_formed (v # rest))"

text \<open>The body of a request that saves the text \<open>t\<close>, and texts to save.\<close>

definition content_body :: "jsstring \<Rightarrow> jsval" where
  "content_body t = JObj [(js ''content'', JStr t)]"

text \<open>An id with a slash in it, as a request path carries it with the slash written \<open>%2F\<close>.\<close>

definition nested_id :: jsstring where
  "nested_id = js ''sub/d''"

text \<open>Ids with \<open>..\<close> as their first segment: one names a file beside the data directory,
  the other comes back into it.\<close>

definition escaping_id :: jsstring where
  "escaping_id = js ''../notes''"

definition returning_id :: jsstring where
  "returning_id = js ''../data/x''"

definition lone_surrogate :: jsstring where
  "lone_surrogate = [0xD800]"

definition two_lines :: jsstring where
  "two_lines = js ''first line\<newline>second line''"

section \<open>Rate limiter: properties\<close>

text \<open>
  C6, as the code has it. \<open>isLockedOut\<close> answers true exactly when the caller has a
  record with at least \<open>MAX_ATTEMPTS\<close> failures whose last attempt is less than
  \<open>LOCKOUT_TIME\<close> old. A record with at least \<open>MAX_ATTEMPTS\<close> failures that is
  \<open>LOCKOUT_TIME\<close> old or older is deleted and the answer is false. A record with fewer
  failures is left as it is, stale or not.
\<close>

theorem isLockedOut_amended:
  "fst (isLockedOut now c m) =
     (\<exists>a. m c = Some a \<and> MAX_ATTEMPTS \<le> count a \<and> now - lastAttempt a < LOCKOUT_TIME)
   \<and> (m c = Some a \<and> MAX_ATTEMPTS \<le> count a \<and> LOCKOUT_TIME \<le> now - lastAttempt a
        \<longrightarrow> isLockedOut now c m = (False, m(c := None)))
   \<and> (m c = Some a \<and> count a < MAX_ATTEMPTS \<longrightarrow> isLockedOut now c m = (False, m))"
  by (auto simp: isLockedOut_def Let_def resetAttempts_def split: option.splits)

theorem isLockedOut_amended_witness:
  "five_failures client = Some \<lparr>count = 5, lastAttempt = 0\<rparr>
   \<and> isLockedOut 900000 client five_failures = (False, five_failures(client := None))
   \<and> fst (isLockedOut 899999 client five_failures)
   \<and> one_failure client = Some \<lparr>count = 1, lastAttempt = 0\<rparr>
   \<and> isLockedOut 900000 client one_failure = (False, one_failure)"
  using isLockedOut_amended [of 900000 client five_failures "\<lparr>count = 5, lastAttempt = 0\<rparr>"]
        isLockedOut_amended [of 899999 client five_failures "\<lparr>count = 5, lastAttempt = 0\<rparr>"]
        isLockedOut_amended [of 900000 client one_failure "\<lparr>count = 1, lastAttempt = 0\<rparr>"]
  by (simp add: five_failures_def one_failure_def MAX_ATTEMPTS_def LOCKOUT_TIME_def)

text \<open>
  C6 as stated fails: a record with one failure, last attempt at 0, is stale at
  clock value 900000, and \<open>isLockedOut\<close> returns false without deleting it.
\<close>

theorem isLockedOut_stale_counterexample:
  "one_failure client = Some \<lparr>count = 1, lastAttempt = 0\<rparr>
   \<and> LOCKOUT_TIME \<le> 900000 - 0
   \<and> fst (isLockedOut 900000 client one_failure) = False
   \<and> snd (isLockedOut 900000 client one_failure) client = Some \<lparr>count = 1, lastAttempt = 0\<rparr>"
  by (simp add: isLockedOut_def one_failure_def MAX_ATTEMPTS_def LOCKOUT_TIME_def)

section \<open>Credential validator: properties\<close>

lemma xor_word_zero_iff: "(a XOR b = 0) = (a = b)" for a b :: "'a::len word"
proof
  assume h: "a XOR b = 0"
  have "a = (a XOR b) XOR b" by (simp add: xor.assoc)
  also have "\<dots> = b" by (simp add: h)
  finally show "a = b" .
next
  assume "a = b" then show "a XOR b = 0" by simp
qed

lemma CRYPTO_memcmp_zero:
  "length a = length b \<Longrightarrow> (CRYPTO_memcmp a b x = 0) = (x = 0 \<and> a = b)"
proof (induction a b arbitrary: x rule: list_induct2)
  case Nil
  then show ?case by simp
next
  case (Cons a as b bs)
  have "(x OR (a XOR b) = 0) = (x = 0 \<and> a = b)"
    by (simp add: or_eq_0_iff xor_word_zero_iff)
  with Cons show ?case by auto
qed

lemma timingSafeEqual_eq:
  "timingSafeEqual a b = (if length a = length b then Inr (a = b) else Inl RangeError)"
  by (simp add: timingSafeEqual_def CRYPTO_memcmp_zero)

lemma secureCompare_strings:
  "secureCompare (JStr x) (JStr y) = Inr (utf8_encode x = utf8_encode y)"
  by (auto simp: secureCompare_def timingSafeEqual_eq)

lemma secureCompare_non_string:
  "\<not> is_string a \<or> \<not> is_string b \<Longrightarrow> secureCompare a b = Inr False"
  by (cases a; cases b) (simp_all add: secureCompare_def)

text \<open>
  C4. \<open>secureCompare\<close> always returns (no exception leaves it). It returns false when
  one of its arguments is not a string, and when both are strings whose byte sequences
  have different lengths; on two strings it returns true exactly when their byte
  sequences are equal.
\<close>

theorem secureCompare_correct:
  "(\<exists>r. secureCompare a b = Inr r)
   \<and> (\<not> is_string a \<or> \<not> is_string b \<longrightarrow> secureCompare a b = Inr False)
   \<and> (length (utf8_encode x) \<noteq> length (utf8_encode y)
        \<longrightarrow> secureCompare (JStr x) (JStr y) = Inr False)
   \<and> secureCompare (JStr x) (JStr y) = Inr (utf8_encode x = utf8_encode y)"
proof -
  have "\<exists>r. secureCompare a b = Inr r"
  proof (cases "is_string a \<and> is_string b")
    case True
    then obtain s t where "a = JStr s" "b = JStr t"
      by (cases a; cases b) auto
    then show ?thesis by (simp add: secureCompare_strings)
  next
    case False
    then have "\<not> is_string a \<or> \<not> is_string b" by simp
    then have "secureCompare a b = Inr False" by (rule secureCompare_non_string)
    then show ?thesis by blast
  qed
  moreover have "length (utf8_encode x) \<noteq> length (utf8_encode y)
      \<longrightarrow> secureCompare (JStr x) (JStr y) = Inr False"
    by (auto simp: secureCompare_strings)
  ultimately show ?thesis
    by (simp add: secureCompare_strings secureCompare_non_string)
qed

theorem secureCompare_correct_witness:
  "secureCompare (JNum 1234) (JStr (js ''1234'')) = Inr False
   \<and> secureCompare (JStr (js ''12345'')) (JStr (js ''1234'')) = Inr False
   \<and> secureCompare (JStr (js ''1234'')) (JStr (js ''1234'')) = Inr True
   \<and> secureCompare (JStr (js ''1234'')) (JStr (js ''1235'')) = Inr False"
  using secureCompare_correct [of "JNum 1234" "JStr (js ''1234'')" "js ''12345''" "js ''1234''"]
        secureCompare_correct [of "JNum 1234" "JStr (js ''1234'')" "js ''1234''" "js ''1234''"]
        secureCompare_correct [of "JNum 1234" "JStr (js ''1234'')" "js ''1234''" "js ''1235''"]
  by (simp add: js_def enc_cp_def byte_def is_surrogate_def is_high_def is_low_def)

section \<open>Access gate: properties\<close>

lemma verify_pin_keeps_state:
  "meth req = POST \<Longrightarrow> pathname req = [js ''api'', js ''verify-pin''] \<Longrightarrow>
   snd (dispatch e now st req) = st"
  by (simp add: dispatch_def routed_method_def send_def is_route_def route_segments_def
      segment_is_def lower_unit_def js_def)

text \<open>
  C1 at a concrete input. With the secret 1234 configured, five verifications with the
  wrong credential 0000 from one caller are each answered 401 and leave no record for the
  caller, so \<open>isLockedOut\<close> is false afterwards; and a caller whose record says it is
  locked out has a verification with the right credential answered 200.
\<close>

theorem verify_pin_never_records:
  "map status (fst (serve (env_with_pin (Some (js ''1234''))) fresh_state five_bad_verifications))
     = [401, 401, 401, 401, 401]
   \<and> loginAttempts (snd (serve (env_with_pin (Some (js ''1234''))) fresh_state
        five_bad_verifications)) client = None
   \<and> fst (isLockedOut 6 client (loginAttempts (snd (serve (env_with_pin (Some (js ''1234'')))
        fresh_state five_bad_verifications)))) = False
   \<and> fst (isLockedOut 6 client five_failures) = True
   \<and> status (fst (dispatch (env_with_pin (Some (js ''1234''))) 6 locked_state
        (verify_request ''1234''))) = 200"
  by code_simp

text \<open>
  C8. \<open>GET /api/config\<close> is answered 200 with \<open>siteTitle\<close> and \<open>baseUrl\<close>, whatever
  secret is configured and whatever credential the request carries, and the state is left
  as it was: the route is registered before the gate.
\<close>

theorem config_exempt:
  "meth req = GET \<Longrightarrow> pathname req = [js ''api'', js ''config''] \<Longrightarrow>
   dispatch e now st req =
     (\<lparr>status = 200,
       payload = JObj [(js ''siteTitle'', JStr (or_default (SITE_TITLE e) (js ''DumbPad''))),
                       (js ''baseUrl'', JStr (BASE_URL e))]\<rparr>, st)"
  by (simp add: dispatch_def routed_method_def send_def is_route_def route_segments_def
      segment_is_def lower_unit_def config_def json_def js_def)

theorem config_exempt_witness:
  "dispatch (env_with_pin (Some (js ''1234''))) 0 fresh_state (get_request [''api'', ''config'']) =
     (\<lparr>status = 200,
       payload = JObj [(js ''siteTitle'', JStr (js ''DumbPad'')),
                       (js ''baseUrl'', JStr (js ''http://localhost:3000''))]\<rparr>, fresh_state)
   \<and> status (fst (dispatch (env_with_pin (Some (js ''1234''))) 0 fresh_state
         (get_request [''api'', ''notepads'']))) = 400"
proof -
  have m: "meth (get_request [''api'', ''config'']) = GET"
    by (simp add: get_request_def)
  have p: "pathname (get_request [''api'', ''config'']) = [js ''api'', js ''config'']"
    by (simp add: get_request_def)
  have "status (fst (dispatch (env_with_pin (Some (js ''1234''))) 0 fresh_state
         (get_request [''api'', ''notepads'']))) = 400"
    by code_simp
  then show ?thesis
    using config_exempt [OF m p, of "env_with_pin (Some (js ''1234''))" 0 fresh_state]
    by (simp add: env_with_pin_def BASE_URL_def PORT_def js_def)
qed

lemma requirePin_no_secret: "\<not> truthy (PIN e) \<Longrightarrow> requirePin e req = None"
  by (simp add: requirePin_def)

lemma api_gate_no_secret: "\<not> truthy (PIN e) \<Longrightarrow> api_gate e req = None"
  by (simp add: api_gate_def requirePin_no_secret split: list.splits)

text \<open>
  C2 at a concrete input. With the malformed secret abc configured, a request for the
  list of notepads is answered 400 without a credential and 401 with the well-formed
  credential 1234, while \<open>GET /api/pin-required\<close> reports that no credential is
  required.
\<close>

theorem malformed_secret_denies:
  "isValidPin (PIN (env_with_pin (Some (js ''abc'')))) = False
   \<and> status (fst (dispatch (env_with_pin (Some (js ''abc''))) 0 fresh_state
        (get_request [''api'', ''notepads'']))) = 400
   \<and> status (fst (dispatch (env_with_pin (Some (js ''abc''))) 0 fresh_state
        ((get_request [''api'', ''notepads''])\<lparr>x_pin := Some (js ''1234'')\<rparr>))) = 401
   \<and> fst (dispatch (env_with_pin (Some (js ''abc''))) 0 fresh_state
        (get_request [''api'', ''pin-required''])) =
       json (JObj [(js ''required'', JBool False), (js ''length'', JNum 3),
                   (js ''locked'', JBool False)])"
  by code_simp

section \<open>Notepad registry: properties\<close>

lemma unat_digit: "d < 10 \<Longrightarrow> unat (digit d) = 48 + d"
  unfolding digit_def by (subst unat_of_nat) simp

lemma digit_value_digit: "d < 10 \<Longrightarrow> digit_value (digit d) = d"
  by (simp add: digit_value_def unat_digit)

lemma parse_nat_snoc: "parse_nat (s @ [c]) = parse_nat s * 10 + digit_value c"
  by (simp add: parse_nat_def)

lemma parse_nat_toString: "parse_nat (nat_toString n) = n"
proof (induction n rule: nat_toString.induct)
  case (1 n)
  show ?case
  proof (cases "n < 10")
    case True
    then show ?thesis
      by (subst nat_toString.simps) (simp add: parse_nat_def digit_value_digit)
  next
    case False
    then have "parse_nat (nat_toString n) = parse_nat (nat_toString (n div 10)) * 10 + n mod 10"
      by (subst nat_toString.simps) (simp add: parse_nat_snoc digit_value_digit)
    with 1 False show ?thesis by simp
  qed
qed

lemma nat_toString_inj: "nat_toString n = nat_toString m \<Longrightarrow> n = m"
  by (metis parse_nat_toString)

lemma nat_toString_first: "\<exists>c cs. nat_toString n = c # cs \<and> c \<noteq> 0x2D"
proof (induction n rule: nat_toString.induct)
  case (1 n)
  show ?case
  proof (cases "n < 10")
    case True
    have "digit n \<noteq> 0x2D"
    proof
      assume "digit n = 0x2D"
      then have "unat (digit n) = 45" by simp
      with True show False by (simp add: unat_digit)
    qed
    with True show ?thesis by (subst nat_toString.simps) simp
  next
    case False
    with 1 obtain c cs where "nat_toString (n div 10) = c # cs" "c \<noteq> 0x2D" by blast
    with False show ?thesis by (subst nat_toString.simps) simp
  qed
qed

lemma parse_int_toString: "parse_int (int_toString i) = i"
proof (cases "i < 0")
  case True
  then show ?thesis
    by (simp add: int_toString_def parse_int_def js_def parse_nat_toString)
next
  case False
  obtain c cs where "nat_toString (nat i) = c # cs" "c \<noteq> 0x2D"
    using nat_toString_first by blast
  with False show ?thesis
    using parse_nat_toString [of "nat i"]
    by (simp add: int_toString_def parse_int_def)
qed

lemma int_toString_inj: "int_toString i = int_toString j \<Longrightarrow> i = j"
  by (metis parse_int_toString)

lemma nat_toString_small: "n < 10 \<Longrightarrow> nat_toString n = [digit n]"
  by (subst nat_toString.simps) simp

lemma nat_toString_large:
  "10 \<le> n \<Longrightarrow> nat_toString n = nat_toString (n div 10) @ [digit (n mod 10)]"
  by (subst nat_toString.simps) simp

lemma create_ok:
  assumes "loadNotepads e fs = Inr ns"
    and "NOTEPADS_FILE e \<notin> wdeny fs" and "dir_exists fs (DATA_DIR e)"
    and "notePath e (int_toString t) \<notin> wdeny fs"
    and "dir_exists fs (parent_dir (notePath e (int_toString t)))"
    and "\<not> dir_exists fs (notePath e (int_toString t))"
  shows "create e t fs =
     (json (notepad_json \<lparr>id_np = int_toString t,
              name_np = JStr (js ''Notepad '' @ nat_toString (length ns + 1))\<rparr>),
      fs\<lparr>registry := Notepads (ns @ [\<lparr>id_np = int_toString t,
              name_np = JStr (js ''Notepad '' @ nat_toString (length ns + 1))\<rparr>]),
         contents := (contents fs)(notePath e (int_toString t) \<mapsto> [])\<rparr>)"
  using assms
  by (simp add: create_def saveNotepads_def writeFile_def dir_exists_def Let_def)

lemma create_answered:
  assumes "loadNotepads e fs = Inr ns" and "create e t fs = (r, fs')" and "status r = 200"
  shows "r = json (notepad_json \<lparr>id_np = int_toString t,
              name_np = JStr (js ''Notepad '' @ nat_toString (length ns + 1))\<rparr>)
       \<and> fs' = fs\<lparr>registry := Notepads (ns @ [\<lparr>id_np = int_toString t,
              name_np = JStr (js ''Notepad '' @ nat_toString (length ns + 1))\<rparr>]),
         contents := (contents fs)(notePath e (int_toString t) \<mapsto> [])\<rparr>"
proof -
  define n where "n = \<lparr>id_np = int_toString t,
      name_np = JStr (js ''Notepad '' @ nat_toString (length ns + 1))\<rparr>"
  define failed where "failed = status_json 500 (error_body ''Error creating new notepad'')"
  have f: "status failed \<noteq> 200"
    by (simp add: failed_def status_json_def)
  show ?thesis
  proof (cases "saveNotepads e fs (ns @ [n])")
    case (Inl err)
    with assms(1,2) have "r = failed"
      by (simp add: create_def Let_def n_def failed_def)
    with assms(3) f show ?thesis by simp
  next
    case save: (Inr fs1)
    then have fs1: "fs1 = fs\<lparr>registry := Notepads (ns @ [n])\<rparr>"
      by (simp add: saveNotepads_def split: if_splits)
    show ?thesis
    proof (cases "writeFile fs1 (notePath e (int_toString t)) []")
      case (Inl err)
      with assms(1,2) save have "r = failed"
        by (simp add: create_def Let_def n_def failed_def)
      with assms(3) f show ?thesis by simp
    next
      case (Inr fs2)
      then have "fs2 = fs1\<lparr>contents := (contents fs1)(notePath e (int_toString t) \<mapsto> [])\<rparr>"
        by (simp add: writeFile_def split: if_splits)
      with assms(1,2) save Inr fs1 show ?thesis
        by (simp add: create_def Let_def n_def)
    qed
  qed
qed

lemma loadNotepads_after:
  "loadNotepads e fs = Inr ns \<Longrightarrow>
   loadNotepads e (fs\<lparr>registry := Notepads ms, contents := c\<rparr>) = Inr ms"
  by (auto simp: loadNotepads_def split: if_splits)

text \<open>
  C3, as the code has it. The id of a new notepad is the decimal string of the clock
  value. Two creations in a row that are both answered 200, on a registry of
  \<open>length ns\<close> entries, answer with the names Notepad N and Notepad N+1 for
  N = \<open>length ns + 1\<close>, which differ; their ids differ when the two clock values differ;
  and the ids of the registry stay distinct when they were distinct and neither clock
  value is already an id.
\<close>

theorem create_amended:
  assumes "loadNotepads e fs = Inr ns"
    and "create e t1 fs = (r1, fs1)" and "status r1 = 200"
    and "create e t2 fs1 = (r2, fs2)" and "status r2 = 200"
  shows "r1 = json (JObj [(js ''id'', JStr (int_toString t1)),
                          (js ''name'', JStr (js ''Notepad '' @ nat_toString (length ns + 1)))])
       \<and> r2 = json (JObj [(js ''id'', JStr (int_toString t2)),
                          (js ''name'', JStr (js ''Notepad '' @ nat_toString (length ns + 2)))])
       \<and> nat_toString (length ns + 1) \<noteq> nat_toString (length ns + 2)
       \<and> (t1 \<noteq> t2 \<longrightarrow> int_toString t1 \<noteq> int_toString t2)
       \<and> registry fs2 =
            Notepads (ns @ [\<lparr>id_np = int_toString t1,
                              name_np = JStr (js ''Notepad '' @ nat_toString (length ns + 1))\<rparr>,
                            \<lparr>id_np = int_toString t2,
                              name_np = JStr (js ''Notepad '' @ nat_toString (length ns + 2))\<rparr>])
       \<and> (distinct (map id_np ns) \<and> int_toString t1 \<notin> set (map id_np ns)
            \<and> int_toString t2 \<notin> set (map id_np ns) \<and> t1 \<noteq> t2
            \<longrightarrow> distinct (map id_np (ns @ [\<lparr>id_np = int_toString t1,
                              name_np = JStr (js ''Notepad '' @ nat_toString (length ns + 1))\<rparr>,
                            \<lparr>id_np = int_toString t2,
                              name_np = JStr (js ''Notepad '' @ nat_toString (length ns + 2))\<rparr>])))"
proof -
  define n1 where "n1 = \<lparr>id_np = int_toString t1,
      name_np = JStr (js ''Notepad '' @ nat_toString (length ns + 1))\<rparr>"
  define n2 where "n2 = \<lparr>id_np = int_toString t2,
      name_np = JStr (js ''Notepad '' @ nat_toString (length ns + 2))\<rparr>"
  have fs1: "fs1 = fs\<lparr>registry := Notepads (ns @ [n1]),
         contents := (contents fs)(notePath e (int_toString t1) \<mapsto> [])\<rparr>"
    and r1: "r1 = json (notepad_json n1)"
    using create_answered [OF assms(1,2,3)] by (simp_all add: n1_def)
  have load1: "loadNotepads e fs1 = Inr (ns @ [n1])"
    unfolding fs1 using assms(1) by (rule loadNotepads_after)
  have r2: "r2 = json (notepad_json n2)"
    and fs2: "registry fs2 = Notepads (ns @ [n1, n2])"
    using create_answered [OF load1 assms(4,5)] by (simp_all add: n2_def)
  have names: "nat_toString (length ns + 1) \<noteq> nat_toString (length ns + 2)"
    using nat_toString_inj [of "length ns + 1" "length ns + 2"] by auto
  have ids: "t1 \<noteq> t2 \<longrightarrow> int_toString t1 \<noteq> int_toString t2"
    using int_toString_inj by blast
  have uniq: "distinct (map id_np ns) \<and> int_toString t1 \<notin> set (map id_np ns)
            \<and> int_toString t2 \<notin> set (map id_np ns) \<and> t1 \<noteq> t2
            \<longrightarrow> distinct (map id_np (ns @ [n1, n2]))"
    using ids by (auto simp: n1_def n2_def)
  show ?thesis
    using r1 r2 fs2 names ids uniq
    by (simp add: n1_def n2_def notepad_json_def)
qed

lemma clock_string: "int_toString 1700000000000 = js ''1700000000000''"
  by (simp add: int_toString_def nat_toString_small nat_toString_large digit_def js_def)

lemma load_one_notepad: "loadNotepads e one_notepad = Inr default_registry"
  by (simp add: loadNotepads_def one_notepad_def)

lemma one_notepad_paths:
  "DATA_DIR (env_with_pin p) = js ''/app/data''"
  "NOTEPADS_FILE (env_with_pin p) = js ''/app/data/notepads.json''"
  "notePath (env_with_pin p) (js ''1700000000000'') = js ''/app/data/1700000000000.txt''"
  "notePath (env_with_pin p) (js ''1700000000001'') = js ''/app/data/1700000000001.txt''"
  "parent_dir (js ''/app/data/1700000000000.txt'') = js ''/app/data''"
  "parent_dir (js ''/app/data/1700000000001.txt'') = js ''/app/data''"
  by (simp_all add: notePath_def NOTEPADS_FILE_def DATA_DIR_def path_join_def path_normalize_def
      parent_dir_def env_with_pin_def js_def slash_def)

lemma next_clock_string: "int_toString 1700000000001 = js ''1700000000001''"
  by (simp add: int_toString_def nat_toString_small nat_toString_large digit_def js_def)

lemma one_notepad_ready:
  assumes "dirs fs = dirs one_notepad" and "wdeny fs = wdeny one_notepad"
  shows "NOTEPADS_FILE (env_with_pin None) \<notin> wdeny fs"
    and "dir_exists fs (DATA_DIR (env_with_pin None))"
    and "notePath (env_with_pin None) (int_toString 1700000000000) \<notin> wdeny fs"
    and "dir_exists fs (parent_dir (notePath (env_with_pin None) (int_toString 1700000000000)))"
    and "\<not> dir_exists fs (notePath (env_with_pin None) (int_toString 1700000000000))"
    and "notePath (env_with_pin None) (int_toString 1700000000001) \<notin> wdeny fs"
    and "dir_exists fs (parent_dir (notePath (env_with_pin None) (int_toString 1700000000001)))"
    and "\<not> dir_exists fs (notePath (env_with_pin None) (int_toString 1700000000001))"
  unfolding clock_string next_clock_string one_notepad_paths dir_exists_def assms
  by (simp_all add: one_notepad_def js_def slash_def)

lemma create_first:
  "create (env_with_pin None) 1700000000000 one_notepad =
     (json (notepad_json \<lparr>id_np = js ''1700000000000'', name_np = JStr (js ''Notepad 2'')\<rparr>),
      one_notepad\<lparr>registry := Notepads (default_registry @
           [\<lparr>id_np = js ''1700000000000'', name_np = JStr (js ''Notepad 2'')\<rparr>]),
         contents := (contents one_notepad)
           (notePath (env_with_pin None) (js ''1700000000000'') \<mapsto> [])\<rparr>)"
proof -
  note r = one_notepad_ready [of one_notepad, OF refl refl]
  show ?thesis
    using create_ok [OF load_one_notepad r(1-5)]
    by (simp add: clock_string default_registry_def nat_toString_small digit_def js_def)
qed

lemma create_second_same:
  "create (env_with_pin None) 1700000000000
      (one_notepad\<lparr>registry := Notepads (default_registry @
           [\<lparr>id_np = js ''1700000000000'', name_np = JStr (js ''Notepad 2'')\<rparr>]),
         contents := (contents one_notepad)
           (notePath (env_with_pin None) (js ''1700000000000'') \<mapsto> [])\<rparr>) =
     (json (notepad_json \<lparr>id_np = js ''1700000000000'', name_np = JStr (js ''Notepad 3'')\<rparr>),
      one_notepad\<lparr>registry := Notepads (default_registry @
           [\<lparr>id_np = js ''1700000000000'', name_np = JStr (js ''Notepad 2'')\<rparr>,
            \<lparr>id_np = js ''1700000000000'', name_np = JStr (js ''Notepad 3'')\<rparr>]),
         contents := (contents one_notepad)
           (notePath (env_with_pin None) (js ''1700000000000'') \<mapsto> [])\<rparr>)"
proof -
  define fs where "fs = one_notepad\<lparr>registry := Notepads (default_registry @
           [\<lparr>id_np = js ''1700000000000'', name_np = JStr (js ''Notepad 2'')\<rparr>]),
         contents := (contents one_notepad)
           (notePath (env_with_pin None) (js ''1700000000000'') \<mapsto> [])\<rparr>"
  have "dirs fs = dirs one_notepad" and "wdeny fs = wdeny one_notepad"
    by (simp_all add: fs_def)
  note r = one_notepad_ready [OF this]
  have l: "loadNotepads (env_with_pin None) fs = Inr (default_registry @
           [\<lparr>id_np = js ''1700000000000'', name_np = JStr (js ''Notepad 2'')\<rparr>])"
    unfolding fs_def using load_one_notepad by (rule loadNotepads_after)
  show ?thesis
    using create_ok [OF l r(1-5)] unfolding fs_def
    by (simp add: clock_string default_registry_def nat_toString_small digit_def js_def)
qed

lemma create_second_next:
  "fst (create (env_with_pin None) 1700000000001
      (one_notepad\<lparr>registry := Notepads (default_registry @
           [\<lparr>id_np = js ''1700000000000'', name_np = JStr (js ''Notepad 2'')\<rparr>]),
         contents := (contents one_notepad)
           (notePath (env_with_pin None) (js ''1700000000000'') \<mapsto> [])\<rparr>)) =
     json (notepad_json \<lparr>id_np = js ''1700000000001'', name_np = JStr (js ''Notepad 3'')\<rparr>)"
proof -
  define fs where "fs = one_notepad\<lparr>registry := Notepads (default_registry @
           [\<lparr>id_np = js ''1700000000000'', name_np = JStr (js ''Notepad 2'')\<rparr>]),
         contents := (contents one_notepad)
           (notePath (env_with_pin None) (js ''1700000000000'') \<mapsto> [])\<rparr>"
  have "dirs fs = dirs one_notepad" and "wdeny fs = wdeny one_notepad"
    by (simp_all add: fs_def)
  note r = one_notepad_ready [OF this]
  have l: "loadNotepads (env_with_pin None) fs = Inr (default_registry @
           [\<lparr>id_np = js ''1700000000000'', name_np = JStr (js ''Notepad 2'')\<rparr>])"
    unfolding fs_def using load_one_notepad by (rule loadNotepads_after)
  show ?thesis
    using create_ok [OF l r(1,2,6,7,8)] unfolding fs_def
    by (simp add: next_clock_string default_registry_def nat_toString_small digit_def js_def)
qed

text \<open>
  C3 as stated fails: two creations at the same clock value give the same id twice, and
  the registry then holds two entries with that id.
\<close>

theorem create_same_clock_counterexample:
  "fst (create (env_with_pin None) 1700000000000 one_notepad) =
     json (JObj [(js ''id'', JStr (js ''1700000000000'')), (js ''name'', JStr (js ''Notepad 2''))])
   \<and> fst (create (env_with_pin None) 1700000000000
           (snd (create (env_with_pin None) 1700000000000 one_notepad))) =
     json (JObj [(js ''id'', JStr (js ''1700000000000'')), (js ''name'', JStr (js ''Notepad 3''))])
   \<and> registry (snd (create (env_with_pin None) 1700000000000
           (snd (create (env_with_pin None) 1700000000000 one_notepad)))) =
     Notepads [\<lparr>id_np = js ''default'', name_np = JStr (js ''Default Notepad'')\<rparr>,
               \<lparr>id_np = js ''1700000000000'', name_np = JStr (js ''Notepad 2'')\<rparr>,
               \<lparr>id_np = js ''1700000000000'', name_np = JStr (js ''Notepad 3'')\<rparr>]"
  unfolding create_first snd_conv fst_conv create_second_same
  by (simp add: notepad_json_def default_registry_def)

theorem create_amended_witness:
  "fst (create (env_with_pin None) 1700000000000 one_notepad) =
     json (JObj [(js ''id'', JStr (js ''1700000000000'')), (js ''name'', JStr (js ''Notepad 2''))])
   \<and> fst (create (env_with_pin None) 1700000000001
           (snd (create (env_with_pin None) 1700000000000 one_notepad))) =
     json (JObj [(js ''id'', JStr (js ''1700000000001'')), (js ''name'', JStr (js ''Notepad 3''))])
   \<and> js ''1700000000000'' \<noteq> js ''1700000000001''
   \<and> registry (snd (create (env_with_pin None) 1700000000001
           (snd (create (env_with_pin None) 1700000000000 one_notepad)))) =
     Notepads [\<lparr>id_np = js ''default'', name_np = JStr (js ''Default Notepad'')\<rparr>,
               \<lparr>id_np = js ''1700000000000'', name_np = JStr (js ''Notepad 2'')\<rparr>,
               \<lparr>id_np = js ''1700000000001'', name_np = JStr (js ''Notepad 3'')\<rparr>]
   \<and> distinct [js ''default'', js ''1700000000000'', js ''1700000000001'']"
proof -
  have s1: "status (fst (create (env_with_pin None) 1700000000000 one_notepad)) = 200"
    by (simp add: create_first json_def)
  have s2: "status (fst (create (env_with_pin None) 1700000000001
        (snd (create (env_with_pin None) 1700000000000 one_notepad)))) = 200"
    unfolding create_first snd_conv by (simp add: create_second_next json_def)
  have c1: "create (env_with_pin None) 1700000000000 one_notepad =
      (fst (create (env_with_pin None) 1700000000000 one_notepad),
       snd (create (env_with_pin None) 1700000000000 one_notepad))"
    by simp
  have c2: "create (env_with_pin None) 1700000000001
        (snd (create (env_with_pin None) 1700000000000 one_notepad)) =
      (fst (create (env_with_pin None) 1700000000001
        (snd (create (env_with_pin None) 1700000000000 one_notepad))),
       snd (create (env_with_pin None) 1700000000001
        (snd (create (env_with_pin None) 1700000000000 one_notepad))))"
    by simp
  show ?thesis
    using create_amended [OF load_one_notepad c1 s1 c2 s2]
    by (simp add: clock_string next_clock_string default_registry_def nat_toString_small
        digit_def js_def)
qed

lemma findIndex_None: "(findIndex P xs = None) = (\<not> list_ex P xs)"
  by (induction xs) (auto split: option.splits)

lemma findIndex_Some:
  "findIndex P xs = Some k \<Longrightarrow> k < length xs \<and> P (xs ! k) \<and> (\<forall>j<k. \<not> P (xs ! j))"
proof (induction xs arbitrary: k)
  case Nil
  then show ?case by simp
next
  case (Cons x xs)
  show ?case
  proof (cases "P x")
    case True
    with Cons.prems show ?thesis by simp
  next
    case False
    with Cons.prems obtain k' where k': "findIndex P xs = Some k'" "k = Suc k'"
      by (auto split: option.splits)
    from Cons.IH [OF k'(1)] False k'(2) show ?thesis
      by (auto simp: nth_Cons split: nat.splits)
  qed
qed

lemma findIndex_member:
  "i \<in> set (map id_np ns) \<Longrightarrow> \<exists>k. findIndex (\<lambda>n. id_np n = i) ns = Some k"
  using findIndex_None [of "\<lambda>n. id_np n = i" ns]
  by (cases "findIndex (\<lambda>n. id_np n = i) ns") (auto simp: list_ex_iff)

lemma distinct_remove_nth:
  assumes "distinct (map f xs)" and "k < length xs"
  shows "f (xs ! k) \<notin> set (map f (take k xs @ drop (Suc k) xs))"
proof -
  have "map f xs = map f (take k xs) @ f (xs ! k) # map f (drop (Suc k) xs)"
    using assms(2) by (metis id_take_nth_drop list.simps(9) map_append)
  with assms(1) have "distinct (map f (take k xs) @ f (xs ! k) # map f (drop (Suc k) xs))"
    by simp
  then show ?thesis by auto
qed

lemma delete_default:
  "delete e fs (js ''default'') =
     (status_json 400 (error_body ''Cannot delete default notepad''), fs,
      [Attempting (js ''default''), AttemptedDefault])"
  by (simp add: delete_def)

lemma delete_absent:
  assumes "i \<noteq> js ''default''" and "loadNotepads e fs = Inr ns"
    and "i \<notin> set (map id_np ns)"
  shows "delete e fs i =
     (status_json 404 (error_body ''Notepad not found''), fs,
      [Attempting i, CurrentNotepads ns, NotFoundLine i])"
proof -
  have "findIndex (\<lambda>n. id_np n = i) ns = None"
    using assms(3) by (auto simp: findIndex_None list_ex_iff)
  with assms(1,2) show ?thesis by (simp add: delete_def)
qed

lemma loadNotepads_fails:
  "(\<exists>err. loadNotepads e fs = Inl err) =
     (NOTEPADS_FILE e \<in> rdeny fs \<or> registry fs = NoFile \<or> registry fs = Garbage)"
  by (cases "registry fs") (auto simp: loadNotepads_def)

lemma delete_unreadable:
  assumes "i \<noteq> js ''default''" and "loadNotepads e fs = Inl err"
  shows "delete e fs i =
     (status_json 500 (error_body ''Error deleting notepad''), fs,
      [Attempting i, EndpointError err])"
  using assms by (simp add: delete_def)

lemma delete_not_saved:
  assumes "i \<noteq> js ''default''" and "loadNotepads e fs = Inr ns"
    and "findIndex (\<lambda>n. id_np n = i) ns = Some k"
    and "NOTEPADS_FILE e \<in> wdeny fs \<or> \<not> dir_exists fs (DATA_DIR e)"
  shows "fst (delete e fs i) = status_json 500 (error_body ''Error deleting notepad'')
       \<and> fst (snd (delete e fs i)) = fs"
  using assms by (auto simp: delete_def saveNotepads_def Let_def)

lemma delete_saved:
  assumes "i \<noteq> js ''default''" and "loadNotepads e fs = Inr ns"
    and "findIndex (\<lambda>n. id_np n = i) ns = Some k"
    and "NOTEPADS_FILE e \<notin> wdeny fs" and "dir_exists fs (DATA_DIR e)"
  shows "delete e fs i =
     (let fs1 = fs\<lparr>registry := Notepads (take k ns @ drop (Suc k) ns)\<rparr>;
          p = notePath e i;
          answer = json (JObj [(js ''success'', JBool True),
            (js ''message'', JStr (js ''Notepad deleted successfully''))]);
          log1 = [Attempting i, CurrentNotepads ns, RemovedNotepad (ns ! k)]
      in case fs_access fs1 p of
           Inl err \<Rightarrow> (answer, fs1, log1 @ [ListSaved, FileError p err])
         | Inr ok \<Rightarrow>
             (case unlink fs1 p of
                Inl err \<Rightarrow> (answer, fs1, log1 @ [ListSaved, FileError p err])
              | Inr fs2 \<Rightarrow> (answer, fs2, log1 @ [ListSaved, DeletedFile p])))"
  using assms by (simp add: delete_def saveNotepads_def Let_def)

lemma delete_present:
  assumes "i \<noteq> js ''default''" and "loadNotepads e fs = Inr ns"
    and "findIndex (\<lambda>n. id_np n = i) ns = Some k"
    and "NOTEPADS_FILE e \<notin> wdeny fs" and "dir_exists fs (DATA_DIR e)"
  shows "status (fst (delete e fs i)) = 200
       \<and> registry (fst (snd (delete e fs i))) = Notepads (take k ns @ drop (Suc k) ns)
       \<and> (contents fs (notePath e i) \<noteq> None \<and> notePath e i \<notin> wdeny fs
            \<and> \<not> dir_exists fs (notePath e i) \<longrightarrow>
            contents (fst (snd (delete e fs i))) = (contents fs)(notePath e i := None)
            \<and> snd (snd (delete e fs i)) =
                [Attempting i, CurrentNotepads ns, RemovedNotepad (ns ! k), ListSaved,
                 DeletedFile (notePath e i)])
       \<and> (contents fs (notePath e i) = None \<or> notePath e i \<in> wdeny fs
            \<or> dir_exists fs (notePath e i) \<longrightarrow>
            contents (fst (snd (delete e fs i))) = contents fs
            \<and> (\<exists>err. snd (snd (delete e fs i)) =
                [Attempting i, CurrentNotepads ns, RemovedNotepad (ns ! k), ListSaved,
                 FileError (notePath e i) err]))"
proof -
  define fs1 where "fs1 = fs\<lparr>registry := Notepads (take k ns @ drop (Suc k) ns)\<rparr>"
  define p where "p = notePath e i"
  note d = delete_saved [OF assms, unfolded Let_def, folded fs1_def p_def]
  have same: "contents fs1 = contents fs" "wdeny fs1 = wdeny fs"
    "dir_exists fs1 p = dir_exists fs p"
    by (simp_all add: fs1_def dir_exists_def)
  show ?thesis
  proof (cases "contents fs p \<noteq> None \<and> p \<notin> wdeny fs \<and> \<not> dir_exists fs p")
    case True
    then obtain b where b: "contents fs p = Some b" by auto
    have a: "fs_access fs1 p = Inr ()"
      using b by (simp add: fs_access_def same)
    have u: "unlink fs1 p = Inr (fs1\<lparr>contents := (contents fs1)(p := None)\<rparr>)"
      using True b by (simp add: unlink_def same)
    show ?thesis
      using True unfolding d a u p_def [symmetric]
      by (simp add: json_def fs1_def)
  next
    case False
    have "\<exists>err. (case fs_access fs1 p of
           Inl err \<Rightarrow> Inl err
         | Inr ok \<Rightarrow> (case unlink fs1 p of Inl err \<Rightarrow> Inl err | Inr fs2 \<Rightarrow> Inr fs2)) = Inl err"
      using False by (auto simp: fs_access_def unlink_def same split: option.splits)
    then obtain err where "delete e fs i =
        (json (JObj [(js ''success'', JBool True),
            (js ''message'', JStr (js ''Notepad deleted successfully''))]), fs1,
         [Attempting i, CurrentNotepads ns, RemovedNotepad (ns ! k)]
           @ [ListSaved, FileError p err])"
      unfolding d by (auto split: sum.splits)
    then show ?thesis
      using False unfolding p_def [symmetric]
      by (auto simp: json_def fs1_def)
  qed
qed

text \<open>
  C7, as the code has it. Deleting \<open>default\<close> is answered 400 and changes nothing,
  whatever the registry holds. For another id: when the registry file is missing, cannot
  be read or is not a registry, the answer is 500 and nothing changes. On a registry that
  can be read, an id that no entry has is answered 404 and nothing changes; an id that an
  entry has is answered 200 only after the registry without the first such entry has
  been written (when the registry cannot be written the answer is 500 and nothing
  changes), and the id is then no longer in a registry whose ids were distinct. The file
  of the notepad is removed afterwards when it exists and can be removed; when it cannot,
  the failure is logged after the line that reports the saved list, the answer is still
  200 and the registry stays as written.
\<close>

theorem delete_amended:
  "delete e fs (js ''default'') =
     (status_json 400 (error_body ''Cannot delete default notepad''), fs,
      [Attempting (js ''default''), AttemptedDefault])
   \<and> (i \<noteq> js ''default''
        \<and> (NOTEPADS_FILE e \<in> rdeny fs \<or> registry fs = NoFile \<or> registry fs = Garbage) \<longrightarrow>
        fst (delete e fs i) = status_json 500 (error_body ''Error deleting notepad'')
        \<and> fst (snd (delete e fs i)) = fs)
   \<and> (i \<noteq> js ''default'' \<and> loadNotepads e fs = Inr ns \<and> i \<notin> set (map id_np ns) \<longrightarrow>
        fst (delete e fs i) = status_json 404 (error_body ''Notepad not found'')
        \<and> fst (snd (delete e fs i)) = fs)
   \<and> (i \<noteq> js ''default'' \<and> loadNotepads e fs = Inr ns \<and> i \<in> set (map id_np ns)
        \<and> (NOTEPADS_FILE e \<in> wdeny fs \<or> \<not> dir_exists fs (DATA_DIR e)) \<longrightarrow>
        fst (delete e fs i) = status_json 500 (error_body ''Error deleting notepad'')
        \<and> fst (snd (delete e fs i)) = fs)
   \<and> (i \<noteq> js ''default'' \<and> loadNotepads e fs = Inr ns \<and> i \<in> set (map id_np ns)
        \<and> NOTEPADS_FILE e \<notin> wdeny fs \<and> dir_exists fs (DATA_DIR e) \<longrightarrow>
        (\<exists>k<length ns. id_np (ns ! k) = i \<and> (\<forall>j<k. id_np (ns ! j) \<noteq> i)
          \<and> status (fst (delete e fs i)) = 200
          \<and> registry (fst (snd (delete e fs i))) = Notepads (take k ns @ drop (Suc k) ns)
          \<and> (distinct (map id_np ns) \<longrightarrow> i \<notin> set (map id_np (take k ns @ drop (Suc k) ns)))
          \<and> (contents fs (notePath e i) \<noteq> None \<and> notePath e i \<notin> wdeny fs
               \<and> \<not> dir_exists fs (notePath e i) \<longrightarrow>
               contents (fst (snd (delete e fs i))) = (contents fs)(notePath e i := None)
               \<and> snd (snd (delete e fs i)) =
                   [Attempting i, CurrentNotepads ns, RemovedNotepad (ns ! k), ListSaved,
                    DeletedFile (notePath e i)])
          \<and> (contents fs (notePath e i) = None \<or> notePath e i \<in> wdeny fs
               \<or> dir_exists fs (notePath e i) \<longrightarrow>
               contents (fst (snd (delete e fs i))) = contents fs
               \<and> (\<exists>err. snd (snd (delete e fs i)) =
                   [Attempting i, CurrentNotepads ns, RemovedNotepad (ns ! k), ListSaved,
                    FileError (notePath e i) err]))))"
proof (intro conjI impI)
  show "delete e fs (js ''default'') =
     (status_json 400 (error_body ''Cannot delete default notepad''), fs,
      [Attempting (js ''default''), AttemptedDefault])"
    by (rule delete_default)
next
  assume a: "i \<noteq> js ''default''
      \<and> (NOTEPADS_FILE e \<in> rdeny fs \<or> registry fs = NoFile \<or> registry fs = Garbage)"
  then obtain err where "loadNotepads e fs = Inl err"
    using loadNotepads_fails [of e fs] by blast
  with a have d: "delete e fs i =
     (status_json 500 (error_body ''Error deleting notepad''), fs,
      [Attempting i, EndpointError err])"
    by (simp add: delete_unreadable)
  show "fst (delete e fs i) = status_json 500 (error_body ''Error deleting notepad'')"
    by (simp add: d)
  show "fst (snd (delete e fs i)) = fs"
    by (simp add: d)
next
  assume "i \<noteq> js ''default'' \<and> loadNotepads e fs = Inr ns \<and> i \<notin> set (map id_np ns)"
  then have d: "delete e fs i =
     (status_json 404 (error_body ''Notepad not found''), fs,
      [Attempting i, CurrentNotepads ns, NotFoundLine i])"
    by (simp add: delete_absent)
  show "fst (delete e fs i) = status_json 404 (error_body ''Notepad not found'')"
    by (simp add: d)
  show "fst (snd (delete e fs i)) = fs"
    by (simp add: d)
next
  assume a: "i \<noteq> js ''default'' \<and> loadNotepads e fs = Inr ns \<and> i \<in> set (map id_np ns)
        \<and> (NOTEPADS_FILE e \<in> wdeny fs \<or> \<not> dir_exists fs (DATA_DIR e))"
  then obtain k where "findIndex (\<lambda>n. id_np n = i) ns = Some k"
    using findIndex_member by blast
  with a have r: "fst (delete e fs i) = status_json 500 (error_body ''Error deleting notepad'')
       \<and> fst (snd (delete e fs i)) = fs"
    by (intro delete_not_saved) simp_all
  show "fst (delete e fs i) = status_json 500 (error_body ''Error deleting notepad'')"
    by (simp add: r)
  show "fst (snd (delete e fs i)) = fs"
    by (simp add: r)
next
  assume a: "i \<noteq> js ''default'' \<and> loadNotepads e fs = Inr ns \<and> i \<in> set (map id_np ns)
        \<and> NOTEPADS_FILE e \<notin> wdeny fs \<and> dir_exists fs (DATA_DIR e)"
  then obtain k where k: "findIndex (\<lambda>n. id_np n = i) ns = Some k"
    using findIndex_member by blast
  from findIndex_Some [OF k]
  have k1: "k < length ns" and k2: "id_np (ns ! k) = i" and k3: "\<forall>j<k. id_np (ns ! j) \<noteq> i"
    by simp_all
  have k4: "distinct (map id_np ns) \<longrightarrow> i \<notin> set (map id_np (take k ns @ drop (Suc k) ns))"
    using distinct_remove_nth [of id_np ns k] k1 k2 by blast
  from a k have p: "status (fst (delete e fs i)) = 200
       \<and> registry (fst (snd (delete e fs i))) = Notepads (take k ns @ drop (Suc k) ns)
       \<and> (contents fs (notePath e i) \<noteq> None \<and> notePath e i \<notin> wdeny fs
            \<and> \<not> dir_exists fs (notePath e i) \<longrightarrow>
            contents (fst (snd (delete e fs i))) = (contents fs)(notePath e i := None)
            \<and> snd (snd (delete e fs i)) =
                [Attempting i, CurrentNotepads ns, RemovedNotepad (ns ! k), ListSaved,
                 DeletedFile (notePath e i)])
       \<and> (contents fs (notePath e i) = None \<or> notePath e i \<in> wdeny fs
            \<or> dir_exists fs (notePath e i) \<longrightarrow>
            contents (fst (snd (delete e fs i))) = contents fs
            \<and> (\<exists>err. snd (snd (delete e fs i)) =
                [Attempting i, CurrentNotepads ns, RemovedNotepad (ns ! k), ListSaved,
                 FileError (notePath e i) err]))"
    by (intro delete_present) simp_all
  show "\<exists>k<length ns. id_np (ns ! k) = i \<and> (\<forall>j<k. id_np (ns ! j) \<noteq> i)
          \<and> status (fst (delete e fs i)) = 200
          \<and> registry (fst (snd (delete e fs i))) = Notepads (take k ns @ drop (Suc k) ns)
          \<and> (distinct (map id_np ns) \<longrightarrow> i \<notin> set (map id_np (take k ns @ drop (Suc k) ns)))
          \<and> (contents fs (notePath e i) \<noteq> None \<and> notePath e i \<notin> wdeny fs
               \<and> \<not> dir_exists fs (notePath e i) \<longrightarrow>
               contents (fst (snd (delete e fs i))) = (contents fs)(notePath e i := None)
               \<and> snd (snd (delete e fs i)) =
                   [Attempting i, CurrentNotepads ns, RemovedNotepad (ns ! k), ListSaved,
                    DeletedFile (notePath e i)])
          \<and> (contents fs (notePath e i) = None \<or> notePath e i \<in> wdeny fs
               \<or> dir_exists fs (notePath e i) \<longrightarrow>
               contents (fst (snd (delete e fs i))) = contents fs
               \<and> (\<exists>err. snd (snd (delete e fs i)) =
                   [Attempting i, CurrentNotepads ns, RemovedNotepad (ns ! k), ListSaved,
                    FileError (notePath e i) err]))"
    using k1 k2 k3 k4 p by blast
qed

lemma stored_note_path: "notePath (env_with_pin p) (js ''1700000000000'') = stored_note"
  by (simp add: one_notepad_paths stored_note_def)

text \<open>
  C7 as stated fails: before the first request the registry file does not exist, and
  deleting the id 42, which no registry has, is answered 500, not 404; so it is when the
  file holds text that is not a registry.
\<close>

theorem delete_unreadable_registry_counterexample:
  "registry no_files = NoFile
   \<and> status (fst (delete (env_with_pin None) no_files (js ''42''))) = 500
   \<and> registry garbled_registry = Garbage
   \<and> status (fst (delete (env_with_pin None) garbled_registry (js ''42''))) = 500"
proof -
  have ne: "js ''42'' \<noteq> js ''default''"
    by (simp add: js_def)
  have a: "loadNotepads (env_with_pin None) no_files = Inl ENOENT"
    and b: "loadNotepads (env_with_pin None) garbled_registry = Inl SyntaxError"
    by (simp_all add: loadNotepads_def no_files_def garbled_registry_def two_notepads_def)
  show ?thesis
    using delete_unreadable [OF ne a] delete_unreadable [OF ne b]
    by (simp add: status_json_def no_files_def garbled_registry_def two_notepads_def)
qed

theorem delete_amended_witness:
  "fst (delete (env_with_pin None) two_notepads (js ''default'')) =
     status_json 400 (error_body ''Cannot delete default notepad'')
   \<and> fst (delete (env_with_pin None) no_files (js ''42'')) =
     status_json 500 (error_body ''Error deleting notepad'')
   \<and> fst (delete (env_with_pin None) two_notepads (js ''42'')) =
     status_json 404 (error_body ''Notepad not found'')
   \<and> status (fst (delete (env_with_pin None) two_notepads second_id)) = 200
   \<and> registry (fst (snd (delete (env_with_pin None) two_notepads second_id))) =
       Notepads default_registry
   \<and> contents (fst (snd (delete (env_with_pin None) two_notepads second_id))) stored_note = None
   \<and> status (fst (delete (env_with_pin None) two_notepads_locked second_id)) = 200
   \<and> registry (fst (snd (delete (env_with_pin None) two_notepads_locked second_id))) =
       Notepads default_registry
   \<and> contents (fst (snd (delete (env_with_pin None) two_notepads_locked second_id))) stored_note =
       Some [0x68, 0x69]"
proof -
  have ne: "second_id \<noteq> js ''default''" "js ''42'' \<noteq> js ''default''"
    by (simp_all add: second_id_def js_def)
  have l0: "registry no_files = NoFile"
    by (simp add: no_files_def)
  have l1: "loadNotepads (env_with_pin None) two_notepads = Inr two_entries"
    and l2: "loadNotepads (env_with_pin None) two_notepads_locked = Inr two_entries"
    by (simp_all add: loadNotepads_def two_notepads_def two_notepads_locked_def)
  have g1: "NOTEPADS_FILE (env_with_pin None) \<notin> rdeny two_notepads"
    "registry two_notepads = Notepads two_entries"
    and g2: "NOTEPADS_FILE (env_with_pin None) \<notin> rdeny two_notepads_locked"
    "registry two_notepads_locked = Notepads two_entries"
    by (simp_all add: two_notepads_def two_notepads_locked_def)
  have m1: "second_id \<in> set (map id_np two_entries)"
    and m2: "js ''42'' \<notin> set (map id_np two_entries)"
    by (simp_all add: two_entries_def second_id_def js_def)
  have w1: "NOTEPADS_FILE (env_with_pin None) \<notin> wdeny two_notepads"
    "dir_exists two_notepads (DATA_DIR (env_with_pin None))"
    and w2: "NOTEPADS_FILE (env_with_pin None) \<notin> wdeny two_notepads_locked"
    "dir_exists two_notepads_locked (DATA_DIR (env_with_pin None))"
    unfolding one_notepad_paths dir_exists_def
    by (simp_all add: two_notepads_def two_notepads_locked_def stored_note_def js_def)
  have p: "notePath (env_with_pin None) second_id = stored_note"
    by (simp add: second_id_def stored_note_path)
  have f1: "contents two_notepads stored_note = Some [0x68, 0x69]"
    "stored_note \<notin> wdeny two_notepads" "\<not> dir_exists two_notepads stored_note"
    and f2: "contents two_notepads_locked stored_note = Some [0x68, 0x69]"
    "stored_note \<in> wdeny two_notepads_locked"
    by (simp_all add: two_notepads_def two_notepads_locked_def dir_exists_def stored_note_def
        js_def slash_def)
  have cut: "\<And>k. k < length two_entries \<Longrightarrow> id_np (two_entries ! k) = second_id \<Longrightarrow>
      take k two_entries @ drop (Suc k) two_entries = default_registry"
    by (auto simp: two_entries_def default_registry_def second_id_def js_def less_Suc_eq)
  note z = delete_amended [of "env_with_pin None" no_files "js ''42''" two_entries]
  note a = delete_amended [of "env_with_pin None" two_notepads "js ''42''" two_entries]
  note b = delete_amended [of "env_with_pin None" two_notepads second_id two_entries]
  note c = delete_amended [of "env_with_pin None" two_notepads_locked second_id two_entries]
  have z': "fst (delete (env_with_pin None) no_files (js ''42'')) =
       status_json 500 (error_body ''Error deleting notepad'')"
    using z ne l0 by simp
  have a': "fst (delete (env_with_pin None) two_notepads (js ''default'')) =
       status_json 400 (error_body ''Cannot delete default notepad'')
     \<and> fst (delete (env_with_pin None) two_notepads (js ''42'')) =
       status_json 404 (error_body ''Notepad not found'')"
    using a ne l1 m2 g1 by simp
  have b': "status (fst (delete (env_with_pin None) two_notepads second_id)) = 200
     \<and> registry (fst (snd (delete (env_with_pin None) two_notepads second_id))) =
         Notepads default_registry
     \<and> contents (fst (snd (delete (env_with_pin None) two_notepads second_id))) stored_note = None"
  proof -
    have "\<exists>k<length two_entries. id_np (two_entries ! k) = second_id
        \<and> status (fst (delete (env_with_pin None) two_notepads second_id)) = 200
        \<and> registry (fst (snd (delete (env_with_pin None) two_notepads second_id))) =
            Notepads (take k two_entries @ drop (Suc k) two_entries)
        \<and> contents (fst (snd (delete (env_with_pin None) two_notepads second_id))) =
            (contents two_notepads)(stored_note := None)"
      using b ne l1 m1 w1 p f1 g1 by (simp; blast)
    then show ?thesis using cut by auto
  qed
  have c': "status (fst (delete (env_with_pin None) two_notepads_locked second_id)) = 200
     \<and> registry (fst (snd (delete (env_with_pin None) two_notepads_locked second_id))) =
         Notepads default_registry
     \<and> contents (fst (snd (delete (env_with_pin None) two_notepads_locked second_id))) stored_note =
         Some [0x68, 0x69]"
  proof -
    have "\<exists>k<length two_entries. id_np (two_entries ! k) = second_id
        \<and> status (fst (delete (env_with_pin None) two_notepads_locked second_id)) = 200
        \<and> registry (fst (snd (delete (env_with_pin None) two_notepads_locked second_id))) =
            Notepads (take k two_entries @ drop (Suc k) two_entries)
        \<and> contents (fst (snd (delete (env_with_pin None) two_notepads_locked second_id))) =
            contents two_notepads_locked"
      using c ne l2 m1 w2 p f2 g2 by (simp; blast)
    then show ?thesis using cut f2 by auto
  qed
  show ?thesis using z' a' b' c' by simp
qed

section \<open>Note store: properties\<close>

subsection \<open>Encoding and decoding a text\<close>

lemma unat_byte: "x < 256 \<Longrightarrow> unat (byte x) = x"
  by (simp add: byte_def unat_of_nat)

lemma decode1:
  assumes "unat b < 128"
  shows "utf8_decode (b # bs) = code_unit (unat b) # utf8_decode bs"
  using assms by (simp add: word_less_nat_alt)

lemma decode2:
  assumes "unat b = 192 + h" "2 \<le> h" "h < 32" "unat b1 = 128 + l" "l < 64"
  shows "utf8_decode (b # b1 # bs) = cp_units (h * 64 + l) @ utf8_decode bs"
  using assms by (simp add: word_less_nat_alt word_le_nat_alt is_cont_def)

lemma decode3:
  assumes "unat b = 224 + h" "h < 16" "unat b1 = 128 + m" "m < 64" "unat b2 = 128 + l" "l < 64"
    and "h = 0 \<longrightarrow> 32 \<le> m" and "h = 13 \<longrightarrow> m < 32"
  shows "utf8_decode (b # b1 # b2 # bs) = cp_units (h * 4096 + m * 64 + l) @ utf8_decode bs"
proof -
  have e0: "(b = 0xE0) = (h = 0)" and ed: "(b = 0xED) = (h = 13)"
    and f0: "b \<noteq> 0xF0" and f4: "b \<noteq> 0xF4"
    using assms(1,2) by (auto simp: word_unat_eq_iff)
  show ?thesis
    using assms
    by (auto simp: word_less_nat_alt word_le_nat_alt is_cont_def lower2_def upper2_def e0 ed f0 f4)
qed

lemma decode4:
  assumes "unat b = 240 + h" "h \<le> 4" "unat b1 = 128 + m" "m < 64" "unat b2 = 128 + k" "k < 64"
    "unat b3 = 128 + l" "l < 64"
    and "h = 0 \<longrightarrow> 16 \<le> m" and "h = 4 \<longrightarrow> m < 16"
  shows "utf8_decode (b # b1 # b2 # b3 # bs) =
      cp_units (h * 262144 + m * 4096 + k * 64 + l) @ utf8_decode bs"
proof -
  have f0: "(b = 0xF0) = (h = 0)" and f4: "(b = 0xF4) = (h = 4)"
    and e0: "b \<noteq> 0xE0" and ed: "b \<noteq> 0xED"
    using assms(1,2) by (auto simp: word_unat_eq_iff)
  show ?thesis
    using assms
    by (auto simp: word_less_nat_alt word_le_nat_alt is_cont_def lower2_def upper2_def e0 ed f0 f4)
qed


lemma surrogate_nat: "is_surrogate u = (55296 \<le> unat u \<and> unat u \<le> 57343)"
  by (simp add: is_surrogate_def word_le_nat_alt)

lemma high_nat: "is_high u = (55296 \<le> unat u \<and> unat u \<le> 56319)"
  by (simp add: is_high_def word_le_nat_alt)

lemma low_nat: "is_low u = (56320 \<le> unat u \<and> unat u \<le> 57343)"
  by (simp add: is_low_def word_le_nat_alt)

lemma unat_unit_bound: "unat (u :: 16 word) < 65536"
  using unsigned_less [of u, where 'a = nat] by simp

lemma cp_units_bmp: "cp_units (unat (u :: 16 word)) = [u]"
  using unat_unit_bound [of u] by (simp add: cp_units_def code_unit_def)

lemma div64: "n div 4096 = n div 64 div (64::nat)"
proof -
  have "n div 4096 = n div (64 * 64)" by simp
  also have "\<dots> = n div 64 div 64" by (rule div_mult2_eq)
  finally show ?thesis .
qed

lemma div4096: "n div 262144 = n div 4096 div (64::nat)"
proof -
  have "n div 262144 = n div (4096 * 64)" by simp
  also have "\<dots> = n div 4096 div 64" by (rule div_mult2_eq)
  finally show ?thesis .
qed

lemma div64_split: "n div 64 = n div 4096 * 64 + n div 64 mod (64::nat)"
  using div_mult_mod_eq [of "n div 64" 64] by (simp add: div64)

lemma div4096_split: "n div 4096 = n div 262144 * 64 + n div 4096 mod (64::nat)"
  using div_mult_mod_eq [of "n div 4096" 64] by (simp add: div4096)

lemma lead13_range: "n div 4096 = 13 \<Longrightarrow> (n::nat) < 57344 \<and> 53248 \<le> n"
  using div_mult_mod_eq [of n 4096] mod_less_divisor [of 4096 n] by linarith

lemma lead4_bound: "(n::nat) < 1114112 \<Longrightarrow> n div 262144 \<le> 4"
  using div_mult_mod_eq [of n 262144] by linarith

lemma split3: "n div 4096 * 4096 + n div 64 mod 64 * 64 + n mod 64 = (n::nat)"
  using div64_split [of n] div_mult_mod_eq [of n 64] by linarith

lemma split4: "n div 262144 * 262144 + n div 4096 mod 64 * 4096 + n div 64 mod 64 * 64 + n mod 64 = (n::nat)"
  using div64_split [of n] div4096_split [of n] div_mult_mod_eq [of n 64] by linarith

lemma roundtrip_unit:
  assumes "\<not> is_surrogate u"
  shows "utf8_decode (enc_cp (unat u) @ bs) = u # utf8_decode bs"
proof -
  define n where "n = unat u"
  have n: "n < 65536" "\<not> (55296 \<le> n \<and> n \<le> 57343)"
    using assms unat_unit_bound [of u] by (simp_all add: n_def surrogate_nat)
  consider "n < 128" | "128 \<le> n" "n < 2048" | "2048 \<le> n"
    by linarith
  then have "utf8_decode (enc_cp n @ bs) = cp_units n @ utf8_decode bs"
  proof cases
    case 1
    then have "utf8_decode (enc_cp n @ bs) = code_unit n # utf8_decode bs"
      using decode1 [of "byte n" bs] by (simp add: enc_cp_def unat_byte)
    with 1 show ?thesis by (simp add: cp_units_def)
  next
    case 2
    have h: "2 \<le> n div 64" "n div 64 < 32"
      using 2 by simp_all
    have "utf8_decode (byte (192 + n div 64) # byte (128 + n mod 64) # bs) =
        cp_units (n div 64 * 64 + n mod 64) @ utf8_decode bs"
      using h by (intro decode2 [where h = "n div 64" and l = "n mod 64"])
        (simp_all add: unat_byte)
    with 2 show ?thesis by (simp add: enc_cp_def)
  next
    case 3
    have h: "n div 4096 < 16"
      using n(1) by simp
    have m0: "n div 4096 = 0 \<longrightarrow> 32 \<le> n div 64 mod 64"
    proof
      assume "n div 4096 = 0"
      then have "n div 64 mod 64 = n div 64" using div64_split [of n] by simp
      moreover have "32 \<le> n div 64" using 3 by simp
      ultimately show "32 \<le> n div 64 mod 64" by simp
    qed
    have m13: "n div 4096 = 13 \<longrightarrow> n div 64 mod 64 < 32"
    proof
      assume a: "n div 4096 = 13"
      with n(2) lead13_range [of n] have "n < 55296" by linarith
      then have "n div 64 < 864" by simp
      with a div64_split [of n] show "n div 64 mod 64 < 32" by linarith
    qed
    have "utf8_decode (byte (224 + n div 4096) # byte (128 + n div 64 mod 64)
            # byte (128 + n mod 64) # bs) =
        cp_units (n div 4096 * 4096 + n div 64 mod 64 * 64 + n mod 64) @ utf8_decode bs"
      using h m0 m13
      by (intro decode3 [where h = "n div 4096" and m = "n div 64 mod 64" and l = "n mod 64"])
        (simp_all add: unat_byte)
    then show ?thesis using 3 n by (simp add: enc_cp_def split3)
  qed
  then show ?thesis by (simp add: n_def cp_units_bmp)
qed


lemma code_unit_unat: "code_unit (unat u) = u"
  by (simp add: code_unit_def)

lemma roundtrip_pair:
  assumes "is_high u" and "is_low v"
  shows "utf8_decode (enc_cp (pair_cp u v) @ bs) = u # v # utf8_decode bs"
proof -
  define hi where "hi = unat u - 55296"
  define lo where "lo = unat v - 56320"
  define c where "c = 65536 + hi * 1024 + lo"
  have u: "unat u = 55296 + hi" and hi: "hi < 1024"
    using assms(1) by (auto simp: hi_def high_nat)
  have v: "unat v = 56320 + lo" and lo: "lo < 1024"
    using assms(2) by (auto simp: lo_def low_nat)
  have c: "pair_cp u v = c"
    by (simp add: pair_cp_def c_def hi_def lo_def)
  have c_lo: "65536 \<le> c" and c_hi: "c < 1114112"
    using hi lo by (simp_all add: c_def)
  have h: "c div 262144 \<le> 4"
    using c_hi by (rule lead4_bound)
  have q: "16 \<le> c div 4096" "c div 4096 < 272"
    using c_lo c_hi by simp_all
  have m0: "c div 262144 = 0 \<longrightarrow> 16 \<le> c div 4096 mod 64"
    using q div4096_split [of c] by auto
  have m4: "c div 262144 = 4 \<longrightarrow> c div 4096 mod 64 < 16"
    using q div4096_split [of c] by auto
  have "utf8_decode (byte (240 + c div 262144) # byte (128 + c div 4096 mod 64)
          # byte (128 + c div 64 mod 64) # byte (128 + c mod 64) # bs) =
      cp_units (c div 262144 * 262144 + c div 4096 mod 64 * 4096 + c div 64 mod 64 * 64
                + c mod 64) @ utf8_decode bs"
    using h m0 m4
    by (intro decode4 [where h = "c div 262144" and m = "c div 4096 mod 64"
          and k = "c div 64 mod 64" and l = "c mod 64"])
      (simp_all add: unat_byte)
  then have d: "utf8_decode (enc_cp c @ bs) = cp_units c @ utf8_decode bs"
    using c_lo by (simp add: enc_cp_def split4)
  have "c - 65536 = hi * 1024 + lo"
    by (simp add: c_def)
  then have "(c - 65536) div 1024 = hi" and "(c - 65536) mod 1024 = lo"
    using lo by simp_all
  then have "cp_units c = [code_unit (unat u), code_unit (unat v)]"
    using c_lo by (simp add: cp_units_def u v)
  then show ?thesis
    by (simp add: c d code_unit_unat)
qed

lemma utf8_roundtrip: "well_formed s \<Longrightarrow> utf8_decode (utf8_encode s) = s"
proof (induction s rule: well_formed.induct)
  case 1
  then show ?case by simp
next
  case (2 u)
  then show ?case
    using roundtrip_unit [of u "[]"] by simp
next
  case (3 u v rest)
  show ?case
  proof (cases "is_high u")
    case True
    with 3 show ?thesis by (simp add: roundtrip_pair)
  next
    case False
    with 3 show ?thesis by (simp add: roundtrip_unit)
  qed
qed

section \<open>Paths: properties\<close>

lemma split_on_plain: "s \<notin> set x \<Longrightarrow> split_on s x = [x]"
  by (induction x) auto

lemma split_on_append: "s \<notin> set x \<Longrightarrow> split_on s (x @ s # ys) = x # split_on s ys"
  by (induction x) auto

lemma split_on_join:
  "segs \<noteq> [] \<Longrightarrow> list_all (\<lambda>x. s \<notin> set x) segs \<Longrightarrow>
   split_on s (join_with [s] segs @ s # ys) = segs @ split_on s ys"
proof (induction "[s]" segs rule: join_with.induct)
  case 1
  then show ?case by simp
next
  case (2 x)
  then show ?case by (simp add: split_on_append)
next
  case (3 x y ys')
  then show ?case by (simp add: split_on_append)
qed

lemma split_on_join_end:
  "segs \<noteq> [] \<Longrightarrow> list_all (\<lambda>x. s \<notin> set x) segs \<Longrightarrow>
   split_on s (join_with [s] segs) = segs"
proof (induction "[s]" segs rule: join_with.induct)
  case 1
  then show ?case by simp
next
  case (2 x)
  then show ?case by (simp add: split_on_plain)
next
  case (3 x y ys')
  then show ?case by (simp add: split_on_append)
qed

lemma normalizeString_segments:
  "list_all segment xs \<Longrightarrow>
   normalizeString (xs @ ys) a res = normalizeString ys a (rev xs @ res)"
  by (induction xs arbitrary: res) (auto simp: segment_def)

lemma join_with_last:
  "x \<noteq> [] \<Longrightarrow> join_with s (xs @ [x]) \<noteq> [] \<and> last (join_with s (xs @ [x])) = last x"
proof (induction s xs rule: join_with.induct)
  case (1 s)
  then show ?case by simp
next
  case (2 s y)
  then show ?case by simp
next
  case (3 s y z zs)
  then show ?case by simp
qed


lemma txt_name:
  "name @ js ''.txt'' \<noteq> []" "name @ js ''.txt'' \<noteq> js ''.''" "name @ js ''.txt'' \<noteq> js ''..''"
  "name @ js ''.txt'' \<noteq> js ''data''" "last (name @ js ''.txt'') \<noteq> slash"
proof -
  have l: "length (name @ js ''.txt'') = length name + 4"
    by (simp add: js_def)
  show "name @ js ''.txt'' \<noteq> []"
    using l by auto
  show "name @ js ''.txt'' \<noteq> js ''.''"
    using l by (auto simp: js_def dest: arg_cong [where f = length])
  show "name @ js ''.txt'' \<noteq> js ''..''"
    using l by (auto simp: js_def dest: arg_cong [where f = length])
  show "name @ js ''.txt'' \<noteq> js ''data''"
  proof
    assume "name @ js ''.txt'' = js ''data''"
    then have "last (name @ js ''.txt'') = last (js ''data'')" by simp
    then show False by (simp add: js_def)
  qed
  show "last (name @ js ''.txt'') \<noteq> slash"
    by (simp add: js_def slash_def)
qed

lemma data_segment: "segment (js ''data'')"
  by (simp add: segment_def js_def slash_def)

lemma segment_no_slash: "list_all segment ds \<Longrightarrow> list_all (\<lambda>x. slash \<notin> set x) ds"
  by (induction ds) (auto simp: segment_def)

lemma notePath_parent:
  assumes "list_all segment ds" and "DATA_DIR e = absolute (ds @ [js ''data''])"
    and "slash \<notin> set name"
  shows "notePath e (js ''../'' @ name) = absolute (ds @ [name @ js ''.txt''])"
proof -
  define f where "f = name @ js ''.txt''"
  define d where "d = join_with [slash] (ds @ [js ''data''])"
  define P where "P = slash # (d @ slash # (js ''..'' @ slash # f))"
  have segs: "list_all segment (ds @ [js ''data''])"
    using assms(1) by (simp add: data_segment)
  have f: "f \<noteq> []" "f \<noteq> js ''.''" "f \<noteq> js ''..''" "last f \<noteq> slash" "slash \<notin> set f"
    using txt_name [of name] assms(3) by (simp_all add: f_def js_def slash_def)
  have dots: "slash \<notin> set (js ''..'')" "js ''data'' \<noteq> js ''..''" "js ''..'' \<noteq> []"
    "js ''..'' \<noteq> js ''.''"
    by (simp_all add: js_def slash_def)
  have joined: "join_with [slash] [DATA_DIR e, (js ''../'' @ name) @ js ''.txt''] = P"
    by (simp add: assms(2) absolute_def P_def d_def f_def js_def slash_def)
  have "split_on slash (d @ slash # (js ''..'' @ slash # f)) =
      (ds @ [js ''data'']) @ split_on slash (js ''..'' @ slash # f)"
    unfolding d_def by (rule split_on_join) (use segment_no_slash [OF segs] in simp_all)
  also have "split_on slash (js ''..'' @ slash # f) = [js ''..'', f]"
    using dots(1) f(5) by (simp add: split_on_append split_on_plain)
  finally have split: "split_on slash P = [] # (ds @ [js ''data'']) @ [js ''..'', f]"
    by (simp add: P_def)
  have "normalizeString (split_on slash P) False [] =
      normalizeString ((ds @ [js ''data'']) @ [js ''..'', f]) False []"
    by (simp add: split)
  also have "\<dots> = normalizeString [js ''..'', f] False (rev (ds @ [js ''data'']) @ [])"
    using segs by (rule normalizeString_segments)
  also have "\<dots> = ds @ [f]"
    using f dots by simp
  finally have norm: "normalizeString (split_on slash P) False [] = ds @ [f]" .
  have q: "join_with [slash] (ds @ [f]) \<noteq> []"
    using join_with_last [of f "[slash]" ds] f(1) by simp
  have lastP: "last P \<noteq> slash"
    using f(1,4) by (simp add: P_def js_def)
  have "path_normalize P = slash # join_with [slash] (ds @ [f])"
    using q lastP norm by (simp add: path_normalize_def P_def [symmetric] Let_def)
      (simp add: P_def)
  moreover have "notePath e (js ''../'' @ name) = path_normalize P"
    using joined txt_name(1) [of "js ''../'' @ name"]
    by (simp add: notePath_def path_join_def assms(2) absolute_def)
  ultimately show ?thesis
    by (simp add: absolute_def f_def)
qed

lemma join_with_snoc:
  "S \<noteq> [] \<Longrightarrow> join_with s (S @ [f]) = join_with s S @ s @ f"
proof (induction s S rule: join_with.induct)
  case (1 s)
  then show ?case by simp
next
  case (2 s x)
  then show ?case by simp
next
  case (3 s x y ys)
  then show ?case by simp
qed

lemma absolute_snoc:
  "absolute (S @ [f]) = (if S = [] then slash # f else absolute S @ slash # f)"
  by (simp add: absolute_def join_with_snoc)

lemma parent_dir_append:
  assumes "slash \<notin> set f"
  shows "parent_dir (d @ slash # f) = (if d = [] then [slash] else d)"
proof -
  have "dropWhile (\<lambda>c. c \<noteq> slash) (rev f @ slash # rev d) =
      dropWhile (\<lambda>c. c \<noteq> slash) (slash # rev d)"
    using assms by (intro dropWhile_append2) auto
  then have "dropWhile (\<lambda>c. c \<noteq> slash) (rev f @ slash # rev d) = slash # rev d"
    by simp
  then have "rev (tl (dropWhile (\<lambda>c. c \<noteq> slash) (rev (d @ slash # f)))) = d"
    by simp
  then show ?thesis
    by (cases d) (simp_all add: parent_dir_def)
qed

lemma parent_dir_child:
  assumes "slash \<notin> set f"
  shows "parent_dir (absolute (S @ [f])) = absolute S"
proof (cases "S = []")
  case True
  then show ?thesis
    using parent_dir_append [OF assms, of "[]"] by (simp add: absolute_def)
next
  case False
  then show ?thesis
    using parent_dir_append [OF assms, of "absolute S"]
    by (simp add: absolute_snoc) (simp add: absolute_def)
qed

lemma path_normalize_absolute:
  assumes "normalizeString (split_on slash (slash # rest)) False [] = S"
    and "join_with [slash] S \<noteq> []" and "last (slash # rest) \<noteq> slash"
  shows "path_normalize (slash # rest) = absolute S"
  using assms by (simp add: path_normalize_def absolute_def Let_def)

lemma path_join_child:
  assumes "list_all segment S" and "segment f"
  shows "path_join [absolute S, f] = absolute (S @ [f])"
proof -
  have f: "f \<noteq> []" "slash \<notin> set f"
    using assms(2) by (simp_all add: segment_def)
  have segs: "list_all segment (S @ [f])"
    using assms by simp
  have split: "normalizeString (split_on slash (slash # (join_with [slash] S @ slash # f)))
      False [] = S @ [f]"
  proof (cases "S = []")
    case True
    then show ?thesis
      using assms(2) f by (simp add: split_on_plain segment_def)
  next
    case False
    have "split_on slash (join_with [slash] S @ slash # f) = S @ split_on slash f"
      using False segment_no_slash [OF assms(1)] by (rule split_on_join)
    then have "split_on slash (slash # (join_with [slash] S @ slash # f)) = [] # (S @ [f])"
      using f by (simp add: split_on_plain)
    moreover have "normalizeString ((S @ [f]) @ []) False [] =
        normalizeString [] False (rev (S @ [f]) @ [])"
      using segs by (rule normalizeString_segments)
    ultimately show ?thesis by simp
  qed
  have nonempty: "join_with [slash] (S @ [f]) \<noteq> []"
    and lst: "last (join_with [slash] (S @ [f])) = last f"
    using join_with_last [of f "[slash]" S] f(1) by simp_all
  have "last f \<noteq> slash"
    using f by (metis last_in_set)
  then have lst': "last (slash # (join_with [slash] S @ slash # f)) \<noteq> slash"
    using f(1) by simp
  have "path_normalize (slash # (join_with [slash] S @ slash # f)) = absolute (S @ [f])"
    using split nonempty lst' by (rule path_normalize_absolute)
  then show ?thesis
    using f(1) by (simp add: path_join_def absolute_def)
qed

lemma txt_segment: "slash \<notin> set i \<Longrightarrow> segment (i @ js ''.txt'')"
  using txt_name [of i] by (simp add: segment_def) (simp add: js_def slash_def)

lemma plain_segments:
  "segment (js ''data'')" "segment (js ''notepads.json'')" "segment (js ''default.txt'')"
  by (simp_all add: segment_def js_def slash_def)

lemma DATA_DIR_shape:
  assumes "list_all segment ds" and "dirname e = absolute ds"
  shows "DATA_DIR e = absolute (ds @ [js ''data''])"
  using path_join_child [OF assms(1) plain_segments(1)]
  by (simp add: DATA_DIR_def assms(2))

lemma data_paths:
  assumes "list_all segment ds" and "dirname e = absolute ds"
  shows "NOTEPADS_FILE e = absolute (ds @ [js ''data'', js ''notepads.json''])"
    and "path_join [DATA_DIR e, js ''default.txt''] = absolute (ds @ [js ''data'', js ''default.txt''])"
    and "slash \<notin> set i \<Longrightarrow> notePath e i = absolute (ds @ [js ''data'', i @ js ''.txt''])"
proof -
  have segs: "list_all segment (ds @ [js ''data''])"
    using assms(1) by (simp add: plain_segments)
  note d = DATA_DIR_shape [OF assms]
  show "NOTEPADS_FILE e = absolute (ds @ [js ''data'', js ''notepads.json''])"
    using path_join_child [OF segs plain_segments(2)] by (simp add: NOTEPADS_FILE_def d)
  show "path_join [DATA_DIR e, js ''default.txt''] =
      absolute (ds @ [js ''data'', js ''default.txt''])"
    using path_join_child [OF segs plain_segments(3)] by (simp add: d)
  show "slash \<notin> set i \<Longrightarrow> notePath e i = absolute (ds @ [js ''data'', i @ js ''.txt''])"
    using path_join_child [OF segs txt_segment [of i]] by (simp add: notePath_def d)
qed

lemma data_parents:
  assumes "list_all segment ds" and "dirname e = absolute ds"
  shows "parent_dir (path_join [DATA_DIR e, js ''default.txt'']) = DATA_DIR e"
    and "slash \<notin> set i \<Longrightarrow> parent_dir (notePath e i) = DATA_DIR e"
    and "slash \<notin> set i \<Longrightarrow> length (DATA_DIR e) < length (notePath e i)"
proof -
  note d = DATA_DIR_shape [OF assms]
  have s: "slash \<notin> set (js ''default.txt'')"
    by (simp add: js_def slash_def)
  have q: "path_join [DATA_DIR e, js ''default.txt''] =
      absolute ((ds @ [js ''data'']) @ [js ''default.txt''])"
    using data_paths(2) [OF assms] by simp
  have r: "parent_dir (absolute ((ds @ [js ''data'']) @ [js ''default.txt''])) =
      absolute (ds @ [js ''data''])"
    using s by (rule parent_dir_child)
  show "parent_dir (path_join [DATA_DIR e, js ''default.txt'']) = DATA_DIR e"
    by (simp only: q) (simp only: r d)
  show "parent_dir (notePath e i) = DATA_DIR e" if i: "slash \<notin> set i"
  proof -
    have t: "slash \<notin> set (i @ js ''.txt'')"
      using i by (simp add: js_def slash_def)
    have p: "notePath e i = absolute ((ds @ [js ''data'']) @ [i @ js ''.txt''])"
      using data_paths(3) [OF assms i] by simp
    have r: "parent_dir (absolute ((ds @ [js ''data'']) @ [i @ js ''.txt''])) =
        absolute (ds @ [js ''data''])"
      using t by (rule parent_dir_child)
    show ?thesis
      by (simp only: p) (simp only: r d)
  qed
  show "length (DATA_DIR e) < length (notePath e i)" if i: "slash \<notin> set i"
  proof -
    have p: "notePath e i = absolute ((ds @ [js ''data'']) @ [i @ js ''.txt''])"
      using data_paths(3) [OF assms i] by simp
    have r: "absolute ((ds @ [js ''data'']) @ [i @ js ''.txt'']) =
        absolute (ds @ [js ''data'']) @ slash # i @ js ''.txt''"
      by (subst absolute_snoc) simp
    show ?thesis
      by (simp only: p r d) simp
  qed
qed

lemma ancestors_shorter: "a \<in> set (ancestors d) \<Longrightarrow> length a < length d"
  by (auto simp: ancestors_def)

subsection \<open>Saving and reading a note\<close>

lemma mkdir_recursive_fails:
  assumes "DATA_DIR e \<in> wdeny fs
      \<or> list_ex (\<lambda>a. contents fs a \<noteq> None) (DATA_DIR e # ancestors (DATA_DIR e))"
  shows "\<exists>err. ensureDataDir e fs = (Some err, fs)"
  using assms by (auto simp: ensureDataDir_def mkdir_recursive_def)

lemma ensureDataDir_flat:
  assumes "DATA_DIR e \<notin> wdeny fs"
    and "\<not> list_ex (\<lambda>a. contents fs a \<noteq> None) (DATA_DIR e # ancestors (DATA_DIR e))"
  shows "ensureDataDir e fs =
    (let fs0 = fs\<lparr>dirs := dirs fs \<union> set (DATA_DIR e # ancestors (DATA_DIR e))\<rparr>;
         kept = (NOTEPADS_FILE e \<notin> rdeny fs \<and> registry fs \<noteq> NoFile \<and> registry fs \<noteq> Garbage);
         fs1 = (if kept then fs0 else fs0\<lparr>registry := Notepads default_registry\<rparr>);
         p = path_join [DATA_DIR e, js ''default.txt'']
     in if \<not> kept \<and> NOTEPADS_FILE e \<in> wdeny fs then (Some EACCES, fs0)
        else if dir_exists fs0 p \<or> contents fs p \<noteq> None then (None, fs1)
        else if p \<in> wdeny fs then (Some EACCES, fs1)
        else if \<not> dir_exists fs0 (parent_dir p) then (Some ENOENT, fs1)
        else (None, fs1\<lparr>contents := (contents fs)(p \<mapsto> [])\<rparr>))"
proof -
  define fs0 where "fs0 = fs\<lparr>dirs := dirs fs \<union> set (DATA_DIR e # ancestors (DATA_DIR e))\<rparr>"
  have m: "mkdir_recursive fs (DATA_DIR e) = Inr fs0"
    using assms by (simp add: mkdir_recursive_def fs0_def)
  have d: "dir_exists fs0 (DATA_DIR e)"
    by (simp add: dir_exists_def fs0_def)
  have f: "wdeny fs0 = wdeny fs" "rdeny fs0 = rdeny fs" "registry fs0 = registry fs"
    "contents fs0 = contents fs"
    by (simp_all add: fs0_def)
  define kept where
    "kept = (NOTEPADS_FILE e \<notin> rdeny fs \<and> registry fs \<noteq> NoFile \<and> registry fs \<noteq> Garbage)"
  define step where "step =
    (if registry fs0 = NoFile then saveNotepads e fs0 default_registry
     else if NOTEPADS_FILE e \<in> rdeny fs0 then saveNotepads e fs0 default_registry
     else if registry fs0 = Garbage then saveNotepads e fs0 default_registry
     else Inr fs0)"
  have s: "step = (if kept then Inr fs0
      else if NOTEPADS_FILE e \<in> wdeny fs then Inl EACCES
      else Inr (fs0\<lparr>registry := Notepads default_registry\<rparr>))"
    using d by (auto simp: step_def kept_def f saveNotepads_def)
  define p where "p = path_join [DATA_DIR e, js ''default.txt'']"
  define fs1 where "fs1 = (if kept then fs0 else fs0\<lparr>registry := Notepads default_registry\<rparr>)"
  have g: "wdeny fs1 = wdeny fs" "contents fs1 = contents fs" "dirs fs1 = dirs fs0"
    by (simp_all add: fs1_def f)
  have h: "dir_exists fs1 x = dir_exists fs0 x" for x
    by (simp add: dir_exists_def g)
  have u: "ensureDataDir e fs =
      (case step of
         Inl err \<Rightarrow> (Some err, fs0)
       | Inr fsa \<Rightarrow>
           (case fs_access fsa p of
              Inr ok \<Rightarrow> (None, fsa)
            | Inl err \<Rightarrow>
                (case writeFile fsa p [] of
                   Inl err2 \<Rightarrow> (Some err2, fsa)
                 | Inr fsb \<Rightarrow> (None, fsb))))"
    unfolding ensureDataDir_def m step_def p_def by (simp add: Let_def split: sum.splits)
  have "ensureDataDir e fs =
     (if \<not> kept \<and> NOTEPADS_FILE e \<in> wdeny fs then (Some EACCES, fs0)
      else if dir_exists fs0 p \<or> contents fs p \<noteq> None then (None, fs1)
      else if p \<in> wdeny fs then (Some EACCES, fs1)
      else if \<not> dir_exists fs0 (parent_dir p) then (Some ENOENT, fs1)
      else (None, fs1\<lparr>contents := (contents fs)(p \<mapsto> [])\<rparr>))"
  proof (cases "\<not> kept \<and> NOTEPADS_FILE e \<in> wdeny fs")
    case True
    then show ?thesis by (simp add: u s)
  next
    case False
    then have "step = Inr fs1"
      by (auto simp: s fs1_def)
    then have "ensureDataDir e fs =
        (case fs_access fs1 p of
           Inr ok \<Rightarrow> (None, fs1)
         | Inl err \<Rightarrow>
             (case writeFile fs1 p [] of
                Inl err2 \<Rightarrow> (Some err2, fs1)
              | Inr fsb \<Rightarrow> (None, fsb)))"
      by (simp add: u)
    with False show ?thesis
      by (auto simp: fs_access_def writeFile_def h g split: option.splits)
  qed
  then show ?thesis
    by (simp add: Let_def fs0_def kept_def fs1_def p_def)
qed

lemma ensureDataDir_frame:
  assumes "ensureDataDir e fs = (x, fs1)"
  shows "rdeny fs1 = rdeny fs \<and> wdeny fs1 = wdeny fs"
proof (cases "DATA_DIR e \<in> wdeny fs
    \<or> list_ex (\<lambda>a. contents fs a \<noteq> None) (DATA_DIR e # ancestors (DATA_DIR e))")
  case True
  from mkdir_recursive_fails [OF True] assms show ?thesis by auto
next
  case False
  then have "DATA_DIR e \<notin> wdeny fs"
    and "\<not> list_ex (\<lambda>a. contents fs a \<noteq> None) (DATA_DIR e # ancestors (DATA_DIR e))"
    by simp_all
  from ensureDataDir_flat [OF this] assms show ?thesis
    by (auto simp: Let_def split: if_splits)
qed

lemma ensureDataDir_dirs:
  assumes "ensureDataDir e fs = (None, fs1)"
  shows "dirs fs1 = dirs fs \<union> set (DATA_DIR e # ancestors (DATA_DIR e))"
proof (cases "DATA_DIR e \<in> wdeny fs
    \<or> list_ex (\<lambda>a. contents fs a \<noteq> None) (DATA_DIR e # ancestors (DATA_DIR e))")
  case True
  from mkdir_recursive_fails [OF True] assms show ?thesis by auto
next
  case False
  then have "DATA_DIR e \<notin> wdeny fs"
    and "\<not> list_ex (\<lambda>a. contents fs a \<noteq> None) (DATA_DIR e # ancestors (DATA_DIR e))"
    by simp_all
  from ensureDataDir_flat [OF this] assms show ?thesis
    by (auto simp: Let_def split: if_splits)
qed

lemma ensureDataDir_None_iff:
  "(fst (ensureDataDir e fs) = None) =
   (let fs0 = fs\<lparr>dirs := dirs fs \<union> set (DATA_DIR e # ancestors (DATA_DIR e))\<rparr>;
        defaultNotePath = path_join [DATA_DIR e, js ''default.txt'']
    in DATA_DIR e \<notin> wdeny fs
       \<and> \<not> list_ex (\<lambda>a. contents fs a \<noteq> None) (DATA_DIR e # ancestors (DATA_DIR e))
       \<and> (NOTEPADS_FILE e \<notin> wdeny fs
           \<or> NOTEPADS_FILE e \<notin> rdeny fs \<and> registry fs \<noteq> NoFile \<and> registry fs \<noteq> Garbage)
       \<and> (dir_exists fs0 defaultNotePath \<or> contents fs defaultNotePath \<noteq> None
           \<or> defaultNotePath \<notin> wdeny fs \<and> dir_exists fs0 (parent_dir defaultNotePath)))"
proof (cases "DATA_DIR e \<in> wdeny fs
    \<or> list_ex (\<lambda>a. contents fs a \<noteq> None) (DATA_DIR e # ancestors (DATA_DIR e))")
  case True
  from mkdir_recursive_fails [OF True] obtain err where "ensureDataDir e fs = (Some err, fs)"
    by blast
  with True show ?thesis by (auto simp: Let_def)
next
  case False
  then have a: "DATA_DIR e \<notin> wdeny fs"
    and b: "\<not> list_ex (\<lambda>a. contents fs a \<noteq> None) (DATA_DIR e # ancestors (DATA_DIR e))"
    by simp_all
  show ?thesis
    unfolding ensureDataDir_flat [OF a b] using a b by (auto simp: Let_def)
qed

lemma write_note_unfold:
  assumes "get_prop reqBody (js ''content'') = Inr (JStr t)"
    and "ensureDataDir e fs = (x, fs1)"
  shows "write_note e fs i reqBody =
     (if x \<noteq> None \<or> notePath e i \<in> wdeny fs1 \<or> \<not> dir_exists fs1 (parent_dir (notePath e i))
          \<or> dir_exists fs1 (notePath e i) then
        (status_json 500 (error_body ''Error saving notes''), fs1)
      else (json success_body,
            fs1\<lparr>contents := (contents fs1)(notePath e i \<mapsto> utf8_encode t)\<rparr>))"
proof (cases x)
  case None
  with assms show ?thesis by (simp add: write_note_def writeFileValue_def writeFile_def)
next
  case (Some err)
  with assms show ?thesis by (simp add: write_note_def)
qed

lemma write_note_stored:
  assumes "get_prop reqBody (js ''content'') = Inr (JStr t)"
    and "write_note e fs i reqBody = (r, fs')" and "status r = 200"
  shows "contents fs' (notePath e i) = Some (utf8_encode t) \<and> rdeny fs' = rdeny fs
    \<and> \<not> dir_exists fs' (notePath e i)"
proof -
  obtain x fs1 where e1: "ensureDataDir e fs = (x, fs1)"
    by (cases "ensureDataDir e fs")
  note u = write_note_unfold [OF assms(1) e1, of i]
  have ok: "\<not> (x \<noteq> None \<or> notePath e i \<in> wdeny fs1
      \<or> \<not> dir_exists fs1 (parent_dir (notePath e i)) \<or> dir_exists fs1 (notePath e i))"
  proof
    assume "x \<noteq> None \<or> notePath e i \<in> wdeny fs1
      \<or> \<not> dir_exists fs1 (parent_dir (notePath e i)) \<or> dir_exists fs1 (notePath e i)"
    with u assms(2) have "r = status_json 500 (error_body ''Error saving notes'')"
      by simp
    with assms(3) show False by (simp add: status_json_def)
  qed
  with u assms(2) have "fs' = fs1\<lparr>contents := (contents fs1)(notePath e i \<mapsto> utf8_encode t)\<rparr>"
    by simp
  then show ?thesis
    using ensureDataDir_frame [OF e1] ok by (simp add: dir_exists_def)
qed

lemma write_note_status:
  assumes "get_prop reqBody (js ''content'') = Inr (JStr t)"
  shows "(status (fst (write_note e fs i reqBody)) = 200) =
   (let fs0 = fs\<lparr>dirs := dirs fs \<union> set (DATA_DIR e # ancestors (DATA_DIR e))\<rparr>;
        defaultNotePath = path_join [DATA_DIR e, js ''default.txt'']
    in DATA_DIR e \<notin> wdeny fs
       \<and> \<not> list_ex (\<lambda>a. contents fs a \<noteq> None) (DATA_DIR e # ancestors (DATA_DIR e))
       \<and> (NOTEPADS_FILE e \<notin> wdeny fs
           \<or> NOTEPADS_FILE e \<notin> rdeny fs \<and> registry fs \<noteq> NoFile \<and> registry fs \<noteq> Garbage)
       \<and> (dir_exists fs0 defaultNotePath \<or> contents fs defaultNotePath \<noteq> None
           \<or> defaultNotePath \<notin> wdeny fs \<and> dir_exists fs0 (parent_dir defaultNotePath))
       \<and> notePath e i \<notin> wdeny fs
       \<and> dir_exists fs0 (parent_dir (notePath e i))
       \<and> \<not> dir_exists fs0 (notePath e i))"
proof -
  obtain x fs1 where e1: "ensureDataDir e fs = (x, fs1)"
    by (cases "ensureDataDir e fs")
  note u = write_note_unfold [OF assms e1, of i]
  have w: "wdeny fs1 = wdeny fs"
    using ensureDataDir_frame [OF e1] by simp
  show ?thesis
  proof (cases x)
    case (Some err)
    then have "status (fst (write_note e fs i reqBody)) = 500"
      by (simp add: u status_json_def)
    moreover have "fst (ensureDataDir e fs) \<noteq> None"
      using e1 Some by simp
    ultimately show ?thesis
      unfolding ensureDataDir_None_iff by (auto simp: Let_def)
  next
    case None
    then have n: "fst (ensureDataDir e fs) = None"
      using e1 by simp
    have d: "dir_exists fs1 y =
        dir_exists (fs\<lparr>dirs := dirs fs \<union> set (DATA_DIR e # ancestors (DATA_DIR e))\<rparr>) y" for y
      using ensureDataDir_dirs [of e fs fs1] e1 None by (simp add: dir_exists_def)
    have "(status (fst (write_note e fs i reqBody)) = 200) =
        (notePath e i \<notin> wdeny fs \<and> dir_exists fs1 (parent_dir (notePath e i))
          \<and> \<not> dir_exists fs1 (notePath e i))"
      using None by (auto simp: u w status_json_def json_def)
    with n show ?thesis
      unfolding ensureDataDir_None_iff d by (auto simp: Let_def)
  qed
qed

lemma made_dirs_shorter:
  assumes "length (DATA_DIR e) < length p"
  shows "p \<notin> set (DATA_DIR e # ancestors (DATA_DIR e))"
  using assms ancestors_shorter [of p "DATA_DIR e"] by auto

lemma write_note_plain_id:
  assumes "get_prop reqBody (js ''content'') = Inr (JStr t)"
    and "list_all segment ds" and "dirname e = absolute ds" and "slash \<notin> set i"
    and "DATA_DIR e \<notin> wdeny fs" and "NOTEPADS_FILE e \<notin> wdeny fs"
    and "path_join [DATA_DIR e, js ''default.txt''] \<notin> wdeny fs"
    and "notePath e i \<notin> wdeny fs"
    and "\<not> list_ex (\<lambda>a. contents fs a \<noteq> None) (DATA_DIR e # ancestors (DATA_DIR e))"
    and "\<not> dir_exists fs (notePath e i)"
  shows "status (fst (write_note e fs i reqBody)) = 200"
proof -
  note p = data_parents [OF assms(2,3)]
  have "notePath e i \<notin> set (DATA_DIR e # ancestors (DATA_DIR e))"
    using p(3) [OF assms(4)] by (rule made_dirs_shorter)
  then have "\<not> dir_exists (fs\<lparr>dirs := dirs fs \<union> set (DATA_DIR e # ancestors (DATA_DIR e))\<rparr>)
      (notePath e i)"
    using assms(10) by (simp add: dir_exists_def)
  then show ?thesis
    unfolding write_note_status [OF assms(1)] Let_def
    using assms(5-9) by (simp add: p(1) p(2) [OF assms(4)] dir_exists_def)
qed

text \<open>
  C9, as the code has it. A text is stored as its UTF-8 bytes and read back by decoding
  them. For a well-formed text \<open>t\<close>, possibly empty or of several lines: when saving
  \<open>t\<close> under an id is answered 200 and the file may be read, reading the id answers
  200 with exactly \<open>t\<close>. Saving a text is answered 200 exactly when the data directory
  can be made (it is not refused and no file stands where it or a directory above it
  should be), the registry file is kept or can be written, the default note exists or
  can be made, and the path of the note is not refused, lies in a directory that exists
  once the data directory is made, and is not itself a directory. So it is for every id
  without a slash when the script lies at an absolute path, none of the four paths is
  refused, no file stands in the way of the data directory and the path of the note is
  not a directory.
  Reading an id whose path holds no file answers 200 with the empty string.
\<close>

theorem note_roundtrip_amended:
  "(well_formed t \<and> get_prop reqBody (js ''content'') = Inr (JStr t)
      \<and> write_note e fs i reqBody = (r, fs') \<and> status r = 200
      \<and> notePath e i \<notin> rdeny fs \<longrightarrow>
      read_note e fs' i = \<lparr>status = 200, payload = JObj [(js ''content'', JStr t)]\<rparr>)
   \<and> (get_prop reqBody (js ''content'') = Inr (JStr t) \<longrightarrow>
        (status (fst (write_note e fs i reqBody)) = 200) =
        (let fs0 = fs\<lparr>dirs := dirs fs \<union> set (DATA_DIR e # ancestors (DATA_DIR e))\<rparr>;
             defaultNotePath = path_join [DATA_DIR e, js ''default.txt'']
         in DATA_DIR e \<notin> wdeny fs
            \<and> \<not> list_ex (\<lambda>a. contents fs a \<noteq> None) (DATA_DIR e # ancestors (DATA_DIR e))
            \<and> (NOTEPADS_FILE e \<notin> wdeny fs
                \<or> NOTEPADS_FILE e \<notin> rdeny fs \<and> registry fs \<noteq> NoFile
                    \<and> registry fs \<noteq> Garbage)
            \<and> (dir_exists fs0 defaultNotePath \<or> contents fs defaultNotePath \<noteq> None
                \<or> defaultNotePath \<notin> wdeny fs \<and> dir_exists fs0 (parent_dir defaultNotePath))
            \<and> notePath e i \<notin> wdeny fs
            \<and> dir_exists fs0 (parent_dir (notePath e i))
            \<and> \<not> dir_exists fs0 (notePath e i)))
   \<and> (get_prop reqBody (js ''content'') = Inr (JStr t)
        \<and> list_all segment ds \<and> dirname e = absolute ds \<and> slash \<notin> set i
        \<and> DATA_DIR e \<notin> wdeny fs \<and> NOTEPADS_FILE e \<notin> wdeny fs
        \<and> path_join [DATA_DIR e, js ''default.txt''] \<notin> wdeny fs
        \<and> notePath e i \<notin> wdeny fs
        \<and> \<not> list_ex (\<lambda>a. contents fs a \<noteq> None) (DATA_DIR e # ancestors (DATA_DIR e))
        \<and> \<not> dir_exists fs (notePath e i) \<longrightarrow>
        status (fst (write_note e fs i reqBody)) = 200)
   \<and> (contents fs (notePath e i) = None \<longrightarrow>
        read_note e fs i = \<lparr>status = 200, payload = JObj [(js ''content'', JStr [])]\<rparr>)"
proof (intro conjI impI)
  assume a: "well_formed t \<and> get_prop reqBody (js ''content'') = Inr (JStr t)
      \<and> write_note e fs i reqBody = (r, fs') \<and> status r = 200
      \<and> notePath e i \<notin> rdeny fs"
  then have "contents fs' (notePath e i) = Some (utf8_encode t) \<and> rdeny fs' = rdeny fs
      \<and> \<not> dir_exists fs' (notePath e i)"
    using write_note_stored [of reqBody t e fs i r fs'] by simp
  with a have "readFile fs' (notePath e i) = Inr t"
    by (simp add: readFile_def utf8_roundtrip)
  then show "read_note e fs' i = \<lparr>status = 200, payload = JObj [(js ''content'', JStr t)]\<rparr>"
    by (simp add: read_note_def json_def)
next
  assume "get_prop reqBody (js ''content'') = Inr (JStr t)"
  then show "(status (fst (write_note e fs i reqBody)) = 200) =
        (let fs0 = fs\<lparr>dirs := dirs fs \<union> set (DATA_DIR e # ancestors (DATA_DIR e))\<rparr>;
             defaultNotePath = path_join [DATA_DIR e, js ''default.txt'']
         in DATA_DIR e \<notin> wdeny fs
            \<and> \<not> list_ex (\<lambda>a. contents fs a \<noteq> None) (DATA_DIR e # ancestors (DATA_DIR e))
            \<and> (NOTEPADS_FILE e \<notin> wdeny fs
                \<or> NOTEPADS_FILE e \<notin> rdeny fs \<and> registry fs \<noteq> NoFile
                    \<and> registry fs \<noteq> Garbage)
            \<and> (dir_exists fs0 defaultNotePath \<or> contents fs defaultNotePath \<noteq> None
                \<or> defaultNotePath \<notin> wdeny fs \<and> dir_exists fs0 (parent_dir defaultNotePath))
            \<and> notePath e i \<notin> wdeny fs
            \<and> dir_exists fs0 (parent_dir (notePath e i))
            \<and> \<not> dir_exists fs0 (notePath e i))"
    by (rule write_note_status)
next
  assume "get_prop reqBody (js ''content'') = Inr (JStr t)
        \<and> list_all segment ds \<and> dirname e = absolute ds \<and> slash \<notin> set i
        \<and> DATA_DIR e \<notin> wdeny fs \<and> NOTEPADS_FILE e \<notin> wdeny fs
        \<and> path_join [DATA_DIR e, js ''default.txt''] \<notin> wdeny fs
        \<and> notePath e i \<notin> wdeny fs
        \<and> \<not> list_ex (\<lambda>a. contents fs a \<noteq> None) (DATA_DIR e # ancestors (DATA_DIR e))
        \<and> \<not> dir_exists fs (notePath e i)"
  then show "status (fst (write_note e fs i reqBody)) = 200"
    using write_note_plain_id [of reqBody t ds e i fs] by blast
next
  assume "contents fs (notePath e i) = None"
  then show "read_note e fs i = \<lparr>status = 200, payload = JObj [(js ''content'', JStr [])]\<rparr>"
    by (simp add: read_note_def readFile_def json_def Let_def)
qed

lemma get_content: "get_prop (content_body t) (js ''content'') = Inr (JStr t)"
  by (simp add: content_body_def)

lemma write_note_collapse:
  "write_note e fs i b = (fst (write_note e fs i b), snd (write_note e fs i b))"
  by simp

lemma app_shape:
  "list_all segment [js ''app'']" "dirname (env_with_pin p) = absolute [js ''app'']"
  by (simp_all add: segment_def env_with_pin_def absolute_def js_def slash_def)

lemma no_files_ready:
  "slash \<notin> set second_id"
  "DATA_DIR (env_with_pin p) \<notin> wdeny no_files"
  "NOTEPADS_FILE (env_with_pin p) \<notin> wdeny no_files"
  "path_join [DATA_DIR (env_with_pin p), js ''default.txt''] \<notin> wdeny no_files"
  "notePath (env_with_pin p) i \<notin> wdeny no_files"
  "notePath (env_with_pin p) i \<notin> rdeny no_files"
  "\<not> list_ex (\<lambda>a. contents no_files a \<noteq> None) xs"
  "contents no_files x = None"
  by (simp_all add: no_files_def second_id_def js_def slash_def list_ex_iff)

lemma no_files_second_id: "\<not> dir_exists no_files (notePath (env_with_pin p) second_id)"
  unfolding second_id_def one_notepad_paths
  by (simp add: dir_exists_def no_files_def js_def slash_def)

lemma write_second_id:
  "status (fst (write_note (env_with_pin None) no_files second_id (content_body t))) = 200"
  using get_content app_shape no_files_ready(1-5) no_files_ready(7) no_files_second_id
  by (rule write_note_plain_id)

lemma nested_id_path:
  "notePath (env_with_pin p) nested_id = js ''/app/data/sub/d.txt''"
  "parent_dir (js ''/app/data/sub/d.txt'') = js ''/app/data/sub''"
  by (simp_all add: notePath_def DATA_DIR_def path_join_def path_normalize_def
      parent_dir_def env_with_pin_def nested_id_def js_def slash_def)

lemma nested_id_no_directory:
  "\<not> dir_exists
      (no_files\<lparr>dirs := dirs no_files
          \<union> set (DATA_DIR (env_with_pin p) # ancestors (DATA_DIR (env_with_pin p)))\<rparr>)
      (js ''/app/data/sub'')"
proof -
  have "length (DATA_DIR (env_with_pin p)) < length (js ''/app/data/sub'')"
    unfolding one_notepad_paths by (simp add: js_def)
  then have "js ''/app/data/sub''
      \<notin> set (DATA_DIR (env_with_pin p) # ancestors (DATA_DIR (env_with_pin p)))"
    by (rule made_dirs_shorter)
  moreover have "js ''/app/data/sub'' \<noteq> [slash]" "js ''/app/data/sub'' \<notin> dirs no_files"
    by (simp_all add: no_files_def js_def slash_def)
  ultimately show ?thesis
    unfolding dir_exists_def by simp
qed

theorem note_roundtrip_amended_witness:
  "status (fst (write_note (env_with_pin None) no_files second_id (content_body two_lines))) = 200
   \<and> read_note (env_with_pin None)
        (snd (write_note (env_with_pin None) no_files second_id (content_body two_lines)))
        second_id = \<lparr>status = 200, payload = content_body two_lines\<rparr>
   \<and> status (fst (write_note (env_with_pin None) no_files second_id (content_body []))) = 200
   \<and> read_note (env_with_pin None)
        (snd (write_note (env_with_pin None) no_files second_id (content_body [])))
        second_id = \<lparr>status = 200, payload = content_body []\<rparr>
   \<and> read_note (env_with_pin None) no_files second_id =
        \<lparr>status = 200, payload = content_body []\<rparr>
   \<and> status (fst (write_note (env_with_pin None) no_files nested_id (content_body two_lines)))
        \<noteq> 200"
proof -
  have wf: "well_formed two_lines" "well_formed []"
    by (simp_all add: two_lines_def js_def is_high_def is_surrogate_def)
  note a = note_roundtrip_amended [of two_lines "content_body two_lines" "env_with_pin None"
      no_files second_id
      "fst (write_note (env_with_pin None) no_files second_id (content_body two_lines))"
      "snd (write_note (env_with_pin None) no_files second_id (content_body two_lines))"
      "[js ''app'']"]
  note b = note_roundtrip_amended [of "[]" "content_body []" "env_with_pin None"
      no_files second_id
      "fst (write_note (env_with_pin None) no_files second_id (content_body []))"
      "snd (write_note (env_with_pin None) no_files second_id (content_body []))"
      "[js ''app'']"]
  note c = note_roundtrip_amended [of two_lines "content_body two_lines" "env_with_pin None"
      no_files nested_id]
  have s1: "status (fst (write_note (env_with_pin None) no_files second_id
      (content_body two_lines))) = 200"
    using a get_content app_shape no_files_ready no_files_second_id by simp
  have s2: "status (fst (write_note (env_with_pin None) no_files second_id
      (content_body []))) = 200"
    using b get_content app_shape no_files_ready no_files_second_id by simp
  have r1: "read_note (env_with_pin None)
        (snd (write_note (env_with_pin None) no_files second_id (content_body two_lines)))
        second_id = \<lparr>status = 200, payload = content_body two_lines\<rparr>"
    using a s1 wf get_content no_files_ready(6) by (simp add: content_body_def)
  have r2: "read_note (env_with_pin None)
        (snd (write_note (env_with_pin None) no_files second_id (content_body [])))
        second_id = \<lparr>status = 200, payload = content_body []\<rparr>"
    using b s2 wf get_content no_files_ready(6) by (simp add: content_body_def)
  have r3: "read_note (env_with_pin None) no_files second_id =
        \<lparr>status = 200, payload = content_body []\<rparr>"
    using a no_files_ready(8) by (simp add: content_body_def)
  have "(status (fst (write_note (env_with_pin None) no_files nested_id
      (content_body two_lines))) = 200) = False"
    using c get_content nested_id_no_directory [of None]
    by (simp add: Let_def nested_id_path)
  with s1 s2 r1 r2 r3 show ?thesis by simp
qed

text \<open>
  C9 as stated fails: the text made of the single code unit D800 (an unpaired surrogate,
  which a JSON string can carry as an escape) is saved with answer 200 and read back as
  the different text U+FFFD.
\<close>

theorem note_roundtrip_counterexample:
  "status (fst (write_note (env_with_pin None) no_files second_id
      (content_body lone_surrogate))) = 200
   \<and> read_note (env_with_pin None)
        (snd (write_note (env_with_pin None) no_files second_id (content_body lone_surrogate)))
        second_id = \<lparr>status = 200, payload = content_body [0xFFFD]\<rparr>
   \<and> lone_surrogate \<noteq> [0xFFFD]"
proof -
  have s: "status (fst (write_note (env_with_pin None) no_files second_id
      (content_body lone_surrogate))) = 200"
    by (rule write_second_id)
  have "contents (snd (write_note (env_with_pin None) no_files second_id
          (content_body lone_surrogate))) (notePath (env_with_pin None) second_id) =
        Some (utf8_encode lone_surrogate)
      \<and> rdeny (snd (write_note (env_with_pin None) no_files second_id
          (content_body lone_surrogate))) = rdeny no_files
      \<and> \<not> dir_exists (snd (write_note (env_with_pin None) no_files second_id
          (content_body lone_surrogate))) (notePath (env_with_pin None) second_id)"
    using get_content write_note_collapse s by (rule write_note_stored)
  moreover have "utf8_decode (utf8_encode lone_surrogate) = [0xFFFD]"
    by (simp add: lone_surrogate_def is_surrogate_def replacement_def lower2_def upper2_def
        is_cont_def cp_units_def code_unit_def)
  ultimately have "read_note (env_with_pin None)
        (snd (write_note (env_with_pin None) no_files second_id (content_body lone_surrogate)))
        second_id = \<lparr>status = 200, payload = content_body [0xFFFD]\<rparr>"
    by (simp add: read_note_def readFile_def no_files_ready(6) no_files_def json_def
        content_body_def)
  with s show ?thesis by (simp add: lone_surrogate_def)
qed

subsection \<open>The path of a note\<close>

lemma ensureDataDir_contents:
  assumes "ensureDataDir e fs = (x, fs1)"
    and "q \<noteq> path_join [DATA_DIR e, js ''default.txt'']"
  shows "contents fs1 q = contents fs q"
proof (cases "DATA_DIR e \<in> wdeny fs
    \<or> list_ex (\<lambda>a. contents fs a \<noteq> None) (DATA_DIR e # ancestors (DATA_DIR e))")
  case True
  from mkdir_recursive_fails [OF True] assms show ?thesis by auto
next
  case False
  then have "DATA_DIR e \<notin> wdeny fs"
    and "\<not> list_ex (\<lambda>a. contents fs a \<noteq> None) (DATA_DIR e # ancestors (DATA_DIR e))"
    by simp_all
  from ensureDataDir_flat [OF this] assms show ?thesis
    by (auto simp: Let_def split: if_splits)
qed

lemma write_note_result:
  assumes "get_prop reqBody (js ''content'') = Inr (JStr t)"
    and "write_note e fs i reqBody = (r, fs')" and "status r = 200"
  shows "fs' = (snd (ensureDataDir e fs))
      \<lparr>contents := (contents (snd (ensureDataDir e fs)))(notePath e i \<mapsto> utf8_encode t)\<rparr>"
proof -
  obtain x fs1 where e1: "ensureDataDir e fs = (x, fs1)"
    by (cases "ensureDataDir e fs")
  note u = write_note_unfold [OF assms(1) e1, of i]
  have "\<not> (x \<noteq> None \<or> notePath e i \<in> wdeny fs1
      \<or> \<not> dir_exists fs1 (parent_dir (notePath e i)) \<or> dir_exists fs1 (notePath e i))"
  proof
    assume "x \<noteq> None \<or> notePath e i \<in> wdeny fs1
      \<or> \<not> dir_exists fs1 (parent_dir (notePath e i)) \<or> dir_exists fs1 (notePath e i)"
    with u assms(2) have "r = status_json 500 (error_body ''Error saving notes'')"
      by simp
    with assms(3) show False by (simp add: status_json_def)
  qed
  with u assms(2) show ?thesis
    by (simp add: e1)
qed

lemma write_note_frame:
  assumes "get_prop reqBody (js ''content'') = Inr (JStr t)"
    and "write_note e fs i reqBody = (r, fs')"
    and "q \<noteq> notePath e i" and "q \<noteq> path_join [DATA_DIR e, js ''default.txt'']"
  shows "contents fs' q = contents fs q"
proof -
  obtain x fs1 where e1: "ensureDataDir e fs = (x, fs1)"
    by (cases "ensureDataDir e fs")
  note u = write_note_unfold [OF assms(1) e1, of i]
  have "contents fs' q = contents fs1 q"
    using u assms(2,3) by (auto split: if_splits)
  then show ?thesis
    using ensureDataDir_contents [OF e1 assms(4)] by simp
qed

lemma read_note_local:
  assumes "(notePath e i \<in> rdeny fs1) = (notePath e i \<in> rdeny fs2)"
    and "dir_exists fs1 (notePath e i) = dir_exists fs2 (notePath e i)"
    and "contents fs1 (notePath e i) = contents fs2 (notePath e i)"
  shows "read_note e fs1 i = read_note e fs2 i"
  using assms by (simp add: read_note_def readFile_def Let_def)

lemma read_note_file:
  assumes "notePath e i \<notin> rdeny fs" and "\<not> dir_exists fs (notePath e i)"
    and "contents fs (notePath e i) = Some b"
  shows "read_note e fs i =
    \<lparr>status = 200, payload = JObj [(js ''content'', JStr (utf8_decode b))]\<rparr>"
  using assms by (simp add: read_note_def readFile_def json_def Let_def)

lemma write_note_any_registry:
  assumes "get_prop reqBody (js ''content'') = Inr (JStr t)"
  shows "(status (fst (write_note e (fs\<lparr>registry := Notepads ns\<rparr>) i reqBody)) = 200) =
    (status (fst (write_note e (fs\<lparr>registry := Notepads ns'\<rparr>) i reqBody)) = 200)"
  unfolding write_note_status [OF assms] by (simp add: Let_def dir_exists_def)

lemma inside_child:
  "inside (absolute (S @ [d])) (absolute (S @ [d, f]))"
proof -
  have "absolute ((S @ [d]) @ [f]) = absolute (S @ [d]) @ slash # f"
    by (subst absolute_snoc) simp
  then show ?thesis
    by (simp add: inside_def)
qed

lemma not_inside_sibling:
  assumes "slash \<notin> set f"
  shows "\<not> inside (absolute (S @ [d])) (absolute (S @ [f]))"
proof
  assume a: "inside (absolute (S @ [d])) (absolute (S @ [f]))"
  define P where "P = (if S = [] then [] else absolute S)"
  have p: "absolute (S @ [d]) = P @ slash # d" "absolute (S @ [f]) = P @ slash # f"
    by (simp_all add: absolute_snoc P_def)
  from a have "take (Suc (length (P @ slash # d))) (P @ slash # f) = (P @ slash # d) @ [slash]"
    unfolding inside_def p .
  then have "take (Suc (length d)) f = d @ [slash]"
    by simp
  then have "slash \<in> set (take (Suc (length d)) f)"
    by simp
  then have "slash \<in> set f"
    by (rule in_set_takeD)
  with assms show False by simp
qed

lemma notePath_inside:
  assumes "list_all segment ds" and "dirname e = absolute ds" and "slash \<notin> set i"
  shows "notePath e i = absolute (ds @ [js ''data'', i @ js ''.txt''])"
    and "inside (DATA_DIR e) (notePath e i)"
proof -
  show p: "notePath e i = absolute (ds @ [js ''data'', i @ js ''.txt''])"
    using assms by (rule data_paths(3))
  show "inside (DATA_DIR e) (notePath e i)"
    unfolding p DATA_DIR_shape [OF assms(1,2)] by (rule inside_child)
qed

lemma notePath_outside:
  assumes "list_all segment ds" and "dirname e = absolute ds" and "slash \<notin> set name"
  shows "notePath e (js ''../'' @ name) = absolute (ds @ [name @ js ''.txt''])"
    and "\<not> inside (DATA_DIR e) (notePath e (js ''../'' @ name))"
proof -
  note d = DATA_DIR_shape [OF assms(1,2)]
  show p: "notePath e (js ''../'' @ name) = absolute (ds @ [name @ js ''.txt''])"
    using assms(1) d assms(3) by (rule notePath_parent)
  have "slash \<notin> set (name @ js ''.txt'')"
    using assms(3) by (simp add: js_def slash_def)
  then show "\<not> inside (DATA_DIR e) (notePath e (js ''../'' @ name))"
    unfolding p d by (rule not_inside_sibling)
qed

lemma ensureDataDir_no_files:
  "fst (ensureDataDir (env_with_pin p) no_files) = None"
  "registry (snd (ensureDataDir (env_with_pin p) no_files)) = Notepads default_registry"
proof -
  note f = ensureDataDir_flat [OF no_files_ready(2) no_files_ready(7), of p]
  have d: "parent_dir (path_join [DATA_DIR (env_with_pin p), js ''default.txt'']) =
      DATA_DIR (env_with_pin p)"
    using app_shape by (rule data_parents(1))
  have r: "registry no_files = NoFile" "wdeny no_files = {}"
    by (simp_all add: no_files_def)
  show "fst (ensureDataDir (env_with_pin p) no_files) = None"
    unfolding f by (simp add: Let_def d r dir_exists_def)
  show "registry (snd (ensureDataDir (env_with_pin p) no_files)) = Notepads default_registry"
    unfolding f by (simp add: Let_def d r dir_exists_def)
qed

lemma write_no_files:
  assumes "parent_dir (notePath (env_with_pin p) i) = js ''/app''
      \<or> parent_dir (notePath (env_with_pin p) i) = js ''/app/data''"
    and "length (DATA_DIR (env_with_pin p)) < length (notePath (env_with_pin p) i)"
  shows "status (fst (write_note (env_with_pin p) no_files i (content_body t))) = 200"
proof -
  have d: "parent_dir (path_join [DATA_DIR (env_with_pin p), js ''default.txt'']) =
      DATA_DIR (env_with_pin p)"
    using app_shape by (rule data_parents(1))
  have m: "notePath (env_with_pin p) i
      \<notin> set (DATA_DIR (env_with_pin p) # ancestors (DATA_DIR (env_with_pin p)))"
    using assms(2) by (rule made_dirs_shorter)
  have l: "notePath (env_with_pin p) i \<noteq> [slash]" "notePath (env_with_pin p) i \<noteq> js ''/app''"
    using assms(2) unfolding one_notepad_paths by (auto simp: js_def)
  have a: "dir_exists
      (no_files\<lparr>dirs := dirs no_files
          \<union> set (DATA_DIR (env_with_pin p) # ancestors (DATA_DIR (env_with_pin p)))\<rparr>)
      (parent_dir (notePath (env_with_pin p) i))"
    using assms(1) by (auto simp: dir_exists_def no_files_def one_notepad_paths)
  have b: "\<not> dir_exists
      (no_files\<lparr>dirs := dirs no_files
          \<union> set (DATA_DIR (env_with_pin p) # ancestors (DATA_DIR (env_with_pin p)))\<rparr>)
      (notePath (env_with_pin p) i)"
    using m l by (simp add: dir_exists_def no_files_def)
  have c: "dir_exists
      (no_files\<lparr>dirs := dirs no_files
          \<union> set (DATA_DIR (env_with_pin p) # ancestors (DATA_DIR (env_with_pin p)))\<rparr>)
      (DATA_DIR (env_with_pin p))"
    by (simp add: dir_exists_def)
  show ?thesis
    unfolding write_note_status [OF get_content] Let_def d
    using a b c no_files_ready(2-5) [of p] no_files_ready(7) by simp
qed

lemma escaping_id_path:
  "escaping_id = js ''../'' @ js ''notes''"
  "slash \<notin> set (js ''notes'')"
  "absolute ([js ''app''] @ [js ''notes'' @ js ''.txt'']) = js ''/app/notes.txt''"
  "parent_dir (js ''/app/notes.txt'') = js ''/app''"
  by (simp_all add: escaping_id_def absolute_def parent_dir_def js_def slash_def)

lemma returning_id_path:
  "notePath (env_with_pin p) returning_id = js ''/app/data/x.txt''"
  "parent_dir (js ''/app/data/x.txt'') = js ''/app/data''"
  by (simp_all add: notePath_def DATA_DIR_def path_join_def path_normalize_def
      parent_dir_def env_with_pin_def returning_id_def js_def slash_def)

text \<open>
  C10, as the code has it. Reading and saving a note work on the file at
  \<open>path.join(DATA_DIR, id + '.txt')\<close> and on no other: what reading an id answers depends
  on the files only through that path, and is the decoded text of the file there; a
  save that is answered 200 leaves the files as \<open>ensureDataDir\<close> left them with the
  text stored at that path, and no save changes a file other than that one and the
  default note. The id is not looked up in the registry: whether a save is answered 200
  does not depend on the entries of the registry, nor does what a read answers. An id
  without a slash names a file directly in the data directory, whatever else it holds;
  an id \<open>../name\<close> names the file \<open>name.txt\<close> beside the data directory, outside it.
\<close>

theorem note_paths_amended:
  "((path_join [DATA_DIR e, i @ js ''.txt''] \<in> rdeny fs1)
        = (path_join [DATA_DIR e, i @ js ''.txt''] \<in> rdeny fs2)
      \<and> dir_exists fs1 (path_join [DATA_DIR e, i @ js ''.txt''])
        = dir_exists fs2 (path_join [DATA_DIR e, i @ js ''.txt''])
      \<and> contents fs1 (path_join [DATA_DIR e, i @ js ''.txt''])
        = contents fs2 (path_join [DATA_DIR e, i @ js ''.txt'']) \<longrightarrow>
      read_note e fs1 i = read_note e fs2 i)
   \<and> (path_join [DATA_DIR e, i @ js ''.txt''] \<notin> rdeny fs
      \<and> \<not> dir_exists fs (path_join [DATA_DIR e, i @ js ''.txt''])
      \<and> contents fs (path_join [DATA_DIR e, i @ js ''.txt'']) = Some b \<longrightarrow>
      read_note e fs i =
        \<lparr>status = 200, payload = JObj [(js ''content'', JStr (utf8_decode b))]\<rparr>)
   \<and> (get_prop reqBody (js ''content'') = Inr (JStr t)
      \<and> write_note e fs i reqBody = (r, fs') \<and> status r = 200 \<longrightarrow>
      fs' = (snd (ensureDataDir e fs))
        \<lparr>contents := (contents (snd (ensureDataDir e fs)))
            (path_join [DATA_DIR e, i @ js ''.txt''] \<mapsto> utf8_encode t)\<rparr>)
   \<and> (get_prop reqBody (js ''content'') = Inr (JStr t)
      \<and> write_note e fs i reqBody = (r, fs')
      \<and> q \<noteq> path_join [DATA_DIR e, i @ js ''.txt'']
      \<and> q \<noteq> path_join [DATA_DIR e, js ''default.txt''] \<longrightarrow>
      contents fs' q = contents fs q)
   \<and> (get_prop reqBody (js ''content'') = Inr (JStr t) \<longrightarrow>
      (status (fst (write_note e (fs\<lparr>registry := Notepads ns\<rparr>) i reqBody)) = 200) =
      (status (fst (write_note e (fs\<lparr>registry := Notepads ns'\<rparr>) i reqBody)) = 200))
   \<and> read_note e (fs\<lparr>registry := g\<rparr>) i = read_note e fs i
   \<and> (list_all segment ds \<and> dirname e = absolute ds \<and> slash \<notin> set i \<longrightarrow>
      path_join [DATA_DIR e, i @ js ''.txt''] = absolute (ds @ [js ''data'', i @ js ''.txt''])
      \<and> inside (DATA_DIR e) (path_join [DATA_DIR e, i @ js ''.txt'']))
   \<and> (list_all segment ds \<and> dirname e = absolute ds \<and> slash \<notin> set name \<longrightarrow>
      path_join [DATA_DIR e, (js ''../'' @ name) @ js ''.txt''] =
        absolute (ds @ [name @ js ''.txt''])
      \<and> \<not> inside (DATA_DIR e) (path_join [DATA_DIR e, (js ''../'' @ name) @ js ''.txt'']))"
proof -
  have p: "path_join [DATA_DIR e, x @ js ''.txt''] = notePath e x" for x
    by (simp add: notePath_def)
  have c1: "read_note e fs1 i = read_note e fs2 i"
    if "(notePath e i \<in> rdeny fs1) = (notePath e i \<in> rdeny fs2)
      \<and> dir_exists fs1 (notePath e i) = dir_exists fs2 (notePath e i)
      \<and> contents fs1 (notePath e i) = contents fs2 (notePath e i)"
    using that read_note_local [of e i fs1 fs2] by simp
  have c2: "read_note e fs i =
        \<lparr>status = 200, payload = JObj [(js ''content'', JStr (utf8_decode b))]\<rparr>"
    if "notePath e i \<notin> rdeny fs \<and> \<not> dir_exists fs (notePath e i)
      \<and> contents fs (notePath e i) = Some b"
    using that read_note_file [of e i fs b] by simp
  have c3: "fs' = (snd (ensureDataDir e fs))
        \<lparr>contents := (contents (snd (ensureDataDir e fs)))(notePath e i \<mapsto> utf8_encode t)\<rparr>"
    if "get_prop reqBody (js ''content'') = Inr (JStr t)
      \<and> write_note e fs i reqBody = (r, fs') \<and> status r = 200"
    using that write_note_result [of reqBody t e fs i r fs'] by simp
  have c4: "contents fs' q = contents fs q"
    if "get_prop reqBody (js ''content'') = Inr (JStr t)
      \<and> write_note e fs i reqBody = (r, fs')
      \<and> q \<noteq> notePath e i
      \<and> q \<noteq> path_join [DATA_DIR e, js ''default.txt'']"
    using that write_note_frame [of reqBody t e fs i r fs' q] by simp
  have c5: "(status (fst (write_note e (fs\<lparr>registry := Notepads ns\<rparr>) i reqBody)) = 200) =
      (status (fst (write_note e (fs\<lparr>registry := Notepads ns'\<rparr>) i reqBody)) = 200)"
    if "get_prop reqBody (js ''content'') = Inr (JStr t)"
    using that by (rule write_note_any_registry)
  have c6: "read_note e (fs\<lparr>registry := g\<rparr>) i = read_note e fs i"
    by (rule read_note_local) (simp_all add: dir_exists_def)
  have c7: "notePath e i = absolute (ds @ [js ''data'', i @ js ''.txt''])
      \<and> inside (DATA_DIR e) (notePath e i)"
    if "list_all segment ds \<and> dirname e = absolute ds \<and> slash \<notin> set i"
    using that notePath_inside [of ds e i] by simp
  have c8: "notePath e (js ''../'' @ name) = absolute (ds @ [name @ js ''.txt''])
      \<and> \<not> inside (DATA_DIR e) (notePath e (js ''../'' @ name))"
    if "list_all segment ds \<and> dirname e = absolute ds \<and> slash \<notin> set name"
    using that notePath_outside [of ds e name] by simp
  show ?thesis
    unfolding p using c1 c2 c3 c4 c5 c6 c7 c8 by blast
qed

theorem note_paths_amended_witness:
  "notePath (env_with_pin None) escaping_id = js ''/app/notes.txt''
   \<and> \<not> inside (DATA_DIR (env_with_pin None)) (notePath (env_with_pin None) escaping_id)
   \<and> status (fst (write_note (env_with_pin None) no_files escaping_id
        (content_body two_lines))) = 200
   \<and> contents (snd (write_note (env_with_pin None) no_files escaping_id
        (content_body two_lines))) (js ''/app/notes.txt'') = Some (utf8_encode two_lines)
   \<and> registry (snd (write_note (env_with_pin None) no_files escaping_id
        (content_body two_lines))) = Notepads default_registry
   \<and> escaping_id \<notin> set (map id_np default_registry)
   \<and> read_note (env_with_pin None)
        (snd (write_note (env_with_pin None) no_files escaping_id (content_body two_lines)))
        escaping_id = \<lparr>status = 200, payload = content_body two_lines\<rparr>
   \<and> inside (DATA_DIR (env_with_pin None)) (notePath (env_with_pin None) second_id)"
proof -
  define fs' where "fs' = snd (write_note (env_with_pin None) no_files escaping_id
      (content_body two_lines))"
  define r where "r = fst (write_note (env_with_pin None) no_files escaping_id
      (content_body two_lines))"
  have w: "write_note (env_with_pin None) no_files escaping_id (content_body two_lines) = (r, fs')"
    by (simp add: r_def fs'_def)
  note a = note_paths_amended [of "env_with_pin None" escaping_id no_files no_files no_files
      "[]" "content_body two_lines" two_lines r fs' "[]" "[]" "[]" NoFile
      "[js ''app'']" "js ''notes''"]
  note a3 = a [THEN conjunct2, THEN conjunct2, THEN conjunct1]
  note a8 = a [THEN conjunct2, THEN conjunct2, THEN conjunct2, THEN conjunct2, THEN conjunct2,
      THEN conjunct2, THEN conjunct2]
  note a' = note_paths_amended [of "env_with_pin None" escaping_id fs' fs' fs'
      "utf8_encode two_lines" "content_body two_lines" two_lines r fs' "[]" "[]" "[]" NoFile
      "[js ''app'']" "js ''notes''"]
  note a2 = a' [THEN conjunct2, THEN conjunct1]
  note b = note_paths_amended [of "env_with_pin None" second_id no_files no_files no_files
      "[]" "content_body two_lines" two_lines r fs' "[]" "[]" "[]" NoFile
      "[js ''app'']" "js ''notes''"]
  note b7 = b [THEN conjunct2, THEN conjunct2, THEN conjunct2, THEN conjunct2, THEN conjunct2,
      THEN conjunct2, THEN conjunct1]
  have wf: "well_formed two_lines"
    by (simp add: two_lines_def js_def is_high_def is_surrogate_def)
  have q: "path_join [DATA_DIR (env_with_pin None), (js ''../'' @ js ''notes'') @ js ''.txt''] =
      notePath (env_with_pin None) escaping_id"
    by (simp add: notePath_def escaping_id_path(1))
  have h8: "list_all segment [js ''app''] \<and> dirname (env_with_pin None) = absolute [js ''app'']
      \<and> slash \<notin> set (js ''notes'')"
    using app_shape escaping_id_path(2) by simp
  have po: "notePath (env_with_pin None) escaping_id = js ''/app/notes.txt''
      \<and> \<not> inside (DATA_DIR (env_with_pin None)) (notePath (env_with_pin None) escaping_id)"
    by (rule a8 [THEN mp, OF h8, unfolded q escaping_id_path(3)])
  note p = po [THEN conjunct1] and o = po [THEN conjunct2]
  have n: "path_join [DATA_DIR (env_with_pin None), escaping_id @ js ''.txt''] =
      js ''/app/notes.txt''"
    using p by (simp add: notePath_def)
  have "length (DATA_DIR (env_with_pin None)) < length (notePath (env_with_pin None) escaping_id)"
    unfolding p one_notepad_paths by (simp add: js_def)
  moreover have "parent_dir (notePath (env_with_pin None) escaping_id) = js ''/app''"
    unfolding p by (rule escaping_id_path(4))
  ultimately have s: "status r = 200"
    unfolding r_def by (intro write_no_files) simp_all
  have h3: "get_prop (content_body two_lines) (js ''content'') = Inr (JStr two_lines)
      \<and> write_note (env_with_pin None) no_files escaping_id (content_body two_lines) = (r, fs')
      \<and> status r = 200"
    using get_content w s by simp
  have f: "fs' = (snd (ensureDataDir (env_with_pin None) no_files))
        \<lparr>contents := (contents (snd (ensureDataDir (env_with_pin None) no_files)))
            (js ''/app/notes.txt'' \<mapsto> utf8_encode two_lines)\<rparr>"
    by (rule a3 [THEN mp, OF h3, unfolded n])
  have c: "contents fs' (js ''/app/notes.txt'') = Some (utf8_encode two_lines)"
    by (subst f) simp
  have g: "registry fs' = Notepads default_registry"
    by (subst f) (simp add: ensureDataDir_no_files)
  have st: "contents fs' (notePath (env_with_pin None) escaping_id) = Some (utf8_encode two_lines)
      \<and> rdeny fs' = rdeny no_files
      \<and> \<not> dir_exists fs' (notePath (env_with_pin None) escaping_id)"
    using get_content w s by (rule write_note_stored)
  have h2: "path_join [DATA_DIR (env_with_pin None), escaping_id @ js ''.txt''] \<notin> rdeny fs'
      \<and> \<not> dir_exists fs' (path_join [DATA_DIR (env_with_pin None), escaping_id @ js ''.txt''])
      \<and> contents fs' (path_join [DATA_DIR (env_with_pin None), escaping_id @ js ''.txt'']) =
          Some (utf8_encode two_lines)"
    using st unfolding n p by (simp add: no_files_def)
  have rd: "read_note (env_with_pin None) fs' escaping_id =
      \<lparr>status = 200, payload = content_body two_lines\<rparr>"
    using a2 [THEN mp, OF h2] by (simp add: content_body_def utf8_roundtrip [OF wf])
  have h7: "list_all segment [js ''app''] \<and> dirname (env_with_pin None) = absolute [js ''app'']
      \<and> slash \<notin> set second_id"
    using app_shape no_files_ready(1) by simp
  have i: "inside (DATA_DIR (env_with_pin None)) (notePath (env_with_pin None) second_id)"
    unfolding notePath_def by (rule b7 [THEN mp, OF h7, THEN conjunct2])
  have e: "escaping_id \<notin> set (map id_np default_registry)"
    by (simp add: default_registry_def escaping_id_def js_def)
  show ?thesis
    using p o s c g e rd i unfolding r_def fs'_def by simp
qed

text \<open>
  C10 as stated fails in its example: an id that holds a path separator, or a segment
  \<open>..\<close>, need not name a file outside the data directory. The id \<open>sub/d\<close> names
  \<open>sub/d.txt\<close> below the data directory, and the id \<open>../data/x\<close> comes back to \<open>x.txt\<close> in
  it, where saving is answered 200.
\<close>

theorem note_paths_counterexample:
  "slash \<in> set nested_id
   \<and> notePath (env_with_pin None) nested_id = js ''/app/data/sub/d.txt''
   \<and> inside (DATA_DIR (env_with_pin None)) (notePath (env_with_pin None) nested_id)
   \<and> js ''..'' \<in> set (split_on slash returning_id)
   \<and> notePath (env_with_pin None) returning_id = js ''/app/data/x.txt''
   \<and> inside (DATA_DIR (env_with_pin None)) (notePath (env_with_pin None) returning_id)
   \<and> status (fst (write_note (env_with_pin None) no_files returning_id
        (content_body two_lines))) = 200"
proof -
  have a: "slash \<in> set nested_id" "js ''..'' \<in> set (split_on slash returning_id)"
    by (simp_all add: nested_id_def returning_id_def js_def slash_def)
  have b: "inside (js ''/app/data'') (js ''/app/data/sub/d.txt'')"
    "inside (js ''/app/data'') (js ''/app/data/x.txt'')"
    by (simp_all add: inside_def js_def slash_def)
  have "length (DATA_DIR (env_with_pin None)) < length (notePath (env_with_pin None) returning_id)"
    unfolding returning_id_path one_notepad_paths by (simp add: js_def)
  moreover have "parent_dir (notePath (env_with_pin None) returning_id) = js ''/app/data''"
    unfolding returning_id_path by simp
  ultimately have "status (fst (write_note (env_with_pin None) no_files returning_id
        (content_body two_lines))) = 200"
    by (intro write_no_files) simp_all
  with a b show ?thesis
    by (simp add: nested_id_path returning_id_path one_notepad_paths)
qed

end
